theory Spec2Isabelle
  imports Main
begin

section \<open>Characters and strings\<close>

text \<open>
  A Python \<open>str\<close> is a sequence of code points.  The model uses \<open>string\<close> (a list of
  \<open>char\<close>); every \<open>char\<close> stands for one code point in the range U+0000 .. U+00FF, so
  the model covers Latin-1 text.  The three character classes below are the ones the
  Python library applies to these code points: \<open>\w\<close> of the \<open>re\<close> module on \<open>str\<close>
  patterns, \<open>str.isspace\<close> (used by \<open>str.strip()\<close>) and \<open>str.lower\<close>.
\<close>

definition code :: "char \<Rightarrow> nat" where
  "code c = of_char c"

definition is_word :: "char \<Rightarrow> bool" where
  "is_word c = (let n = code c in
     (48 \<le> n \<and> n \<le> 57) \<or> (65 \<le> n \<and> n \<le> 90) \<or> n = 95 \<or> (97 \<le> n \<and> n \<le> 122) \<or>
     n = 170 \<or> n = 178 \<or> n = 179 \<or> n = 181 \<or> n = 185 \<or> n = 186 \<or>
     n = 188 \<or> n = 189 \<or> n = 190 \<or>
     (192 \<le> n \<and> n \<le> 214) \<or> (216 \<le> n \<and> n \<le> 246) \<or> 248 \<le> n)"

definition is_space :: "char \<Rightarrow> bool" where
  "is_space c = (let n = code c in
     (9 \<le> n \<and> n \<le> 13) \<or> (28 \<le> n \<and> n \<le> 32) \<or> n = 133 \<or> n = 160)"

definition lower_char :: "char \<Rightarrow> char" where
  "lower_char c = (let n = code c in
     if (65 \<le> n \<and> n \<le> 90) \<or> (192 \<le> n \<and> n \<le> 214) \<or> (216 \<le> n \<and> n \<le> 222)
     then char_of (n + 32) else c)"

definition lower :: "string \<Rightarrow> string" where
  "lower s = map lower_char s"

text \<open>\<open>s.strip()\<close>: leading and trailing whitespace removed.\<close>

definition lstrip :: "string \<Rightarrow> string" where
  "lstrip s = dropWhile is_space s"

definition rstrip :: "string \<Rightarrow> string" where
  "rstrip s = rev (dropWhile is_space (rev s))"

definition strip :: "string \<Rightarrow> string" where
  "strip s = rstrip (lstrip s)"

text \<open>\<open>old in s\<close> (substring test) and \<open>s.replace(old, '')\<close> (every non-overlapping
  occurrence removed, scanning from the left).\<close>

definition starts_with :: "string \<Rightarrow> string \<Rightarrow> bool" where
  "starts_with old s = (take (length old) s = old)"

fun contains :: "string \<Rightarrow> string \<Rightarrow> bool" where
  "contains old [] = (old = [])"
| "contains old (c # cs) = (starts_with old (c # cs) \<or> contains old cs)"

fun str_remove :: "string \<Rightarrow> string \<Rightarrow> string" where
  "str_remove old [] = []"
| "str_remove old (c # cs) =
     (if old \<noteq> [] \<and> starts_with old (c # cs)
      then str_remove old (drop (length old - 1) cs)
      else c # str_remove old cs)"

section \<open>The regular expressions of the parser\<close>

text \<open>
  The date patterns all have the shape \<open>\b(a1|...|an)\b\<close> and are used with
  \<open>re.IGNORECASE\<close>.  A pattern is the list of its alternatives, written in lower case as
  in the source; every alternative of the source is a non-empty word.  The scanning
  functions carry \<open>pw\<close>: whether the character before the current position is a word
  character (\<open>False\<close> at the start of the string), which is what \<open>\b\<close> looks at.
\<close>

type_synonym pattern = "string list"

definition word_at :: "string \<Rightarrow> bool" where
  "word_at s = (case s of [] \<Rightarrow> False | c # _ \<Rightarrow> is_word c)"

definition alt_matches :: "bool \<Rightarrow> string \<Rightarrow> string \<Rightarrow> bool" where
  "alt_matches pw s a =
     (a \<noteq> [] \<and> pw \<noteq> word_at s \<and> length a \<le> length s \<and>
      lower (take (length a) s) = lower a \<and>
      is_word (last (take (length a) s)) \<noteq> word_at (drop (length a) s))"

text \<open>The text of group 1 of a match that starts at the current position, if there is one;
  the alternatives are tried in order.\<close>

definition match_here :: "pattern \<Rightarrow> bool \<Rightarrow> string \<Rightarrow> string option" where
  "match_here p pw s = map_option (\<lambda>a. take (length a) s) (find (alt_matches pw s) p)"

fun re_search_from :: "pattern \<Rightarrow> bool \<Rightarrow> string \<Rightarrow> string option" where
  "re_search_from p pw [] = None"
| "re_search_from p pw (c # cs) =
     (case match_here p pw (c # cs) of
        Some m \<Rightarrow> Some m
      | None \<Rightarrow> re_search_from p (is_word c) cs)"

text \<open>\<open>re.search(pattern, text, re.IGNORECASE)\<close>: group 1 of the leftmost match.\<close>

definition re_search :: "pattern \<Rightarrow> string \<Rightarrow> string option" where
  "re_search p s = re_search_from p False s"

fun re_sub_from :: "pattern \<Rightarrow> bool \<Rightarrow> string \<Rightarrow> string" where
  "re_sub_from p pw [] = []"
| "re_sub_from p pw (c # cs) =
     (case match_here p pw (c # cs) of
        Some m \<Rightarrow> re_sub_from p (is_word (last m)) (drop (length m - 1) cs)
      | None \<Rightarrow> c # re_sub_from p (is_word c) cs)"

text \<open>\<open>re.sub(pattern, '', text, flags=re.IGNORECASE)\<close>: every non-overlapping match
  removed, scanning from the left.\<close>

definition re_sub :: "pattern \<Rightarrow> string \<Rightarrow> string" where
  "re_sub p s = re_sub_from p False s"

text \<open>\<open>re.findall(r'#(\w+)', s)\<close> and \<open>re.sub(r'#\w+', '', s)\<close>: \<open>\w+\<close> is greedy and nothing
  follows it, so a match is a hash sign and the longest run of word characters after it.\<close>

function findall_tags :: "string \<Rightarrow> string list" where
  "findall_tags [] = []"
| "findall_tags (c # cs) =
     (if c = CHR ''#'' \<and> takeWhile is_word cs \<noteq> []
      then takeWhile is_word cs # findall_tags (dropWhile is_word cs)
      else findall_tags cs)"
  by pat_completeness auto
termination
  by (relation "measure length") (auto simp: length_dropWhile_le less_Suc_eq_le)

function sub_tags :: "string \<Rightarrow> string" where
  "sub_tags [] = []"
| "sub_tags (c # cs) =
     (if c = CHR ''#'' \<and> takeWhile is_word cs \<noteq> []
      then sub_tags (dropWhile is_word cs)
      else c # sub_tags cs)"
  by pat_completeness auto
termination
  by (relation "measure length") (auto simp: length_dropWhile_le less_Suc_eq_le)

section \<open>Calendar dates\<close>

text \<open>\<open>datetime.date\<close>: the fields, the range check of the constructor (which
  \<open>date.replace\<close> runs on the new fields) and \<open>date.weekday()\<close> (Monday is 0).\<close>

datatype error = ValueError | TypeError

record date =
  year :: int
  month :: int
  day :: int

definition is_leap :: "int \<Rightarrow> bool" where
  "is_leap y = (y mod 4 = 0 \<and> (y mod 100 \<noteq> 0 \<or> y mod 400 = 0))"

definition days_in_month :: "int \<Rightarrow> int \<Rightarrow> int" where
  "days_in_month y m =
     (if m = 2 then (if is_leap y then 29 else 28)
      else if m = 4 \<or> m = 6 \<or> m = 9 \<or> m = 11 then 30 else 31)"

definition valid_date :: "date \<Rightarrow> bool" where
  "valid_date d = (1 \<le> year d \<and> year d \<le> 9999 \<and> 1 \<le> month d \<and> month d \<le> 12 \<and>
     1 \<le> day d \<and> day d \<le> days_in_month (year d) (month d))"

text \<open>\<open>d.replace(day=n)\<close> raises \<open>ValueError\<close> when the new day is out of range for the
  month.\<close>

definition replace_day :: "date \<Rightarrow> int \<Rightarrow> error + date" where
  "replace_day d n = (if valid_date (d\<lparr>day := n\<rparr>) then Inr (d\<lparr>day := n\<rparr>) else Inl ValueError)"

definition days_before_year :: "int \<Rightarrow> int" where
  "days_before_year y = (y - 1) * 365 + (y - 1) div 4 - (y - 1) div 100 + (y - 1) div 400"

definition days_before_month :: "int \<Rightarrow> int \<Rightarrow> int" where
  "days_before_month y m =
     [0, 31, 59, 90, 120, 151, 181, 212, 243, 273, 304, 334] ! nat (m - 1)
       + (if m > 2 \<and> is_leap y then 1 else 0)"

definition toordinal :: "date \<Rightarrow> int" where
  "toordinal d = days_before_year (year d) + days_before_month (year d) (month d) + day d"

definition weekday :: "date \<Rightarrow> int" where
  "weekday d = (toordinal d + 6) mod 7"

section \<open>The parser of \<open>src/routes/tasks.py\<close>\<close>

text \<open>
  The source reads the clock with \<open>datetime.now()\<close>; the model takes the date it returns
  as the explicit argument \<open>now\<close> (the reference date), the same for every read within
  one call.
\<close>

definition days :: "string list" where
  "days = [''monday'', ''tuesday'', ''wednesday'', ''thursday'', ''friday'', ''saturday'',
           ''sunday'']"

text \<open>\<open>days.index(x)\<close> raises \<open>ValueError\<close> when \<open>x\<close> is not in the list.\<close>

fun index_of :: "string list \<Rightarrow> string \<Rightarrow> error + int" where
  "index_of [] x = Inl ValueError"
| "index_of (y # ys) x =
     (if y = x then Inr 0 else (case index_of ys x of Inl e \<Rightarrow> Inl e | Inr i \<Rightarrow> Inr (i + 1)))"

definition get_next_weekday :: "date \<Rightarrow> string \<Rightarrow> error + date" where
  "get_next_weekday now day_name =
     (let today = now;
          today_weekday = weekday today
      in case index_of days (lower day_name) of
           Inl e \<Rightarrow> Inl e
         | Inr target_weekday \<Rightarrow>
             (let days_ahead = target_weekday - today_weekday;
                  days_ahead = (if days_ahead \<le> 0 then days_ahead + 7 else days_ahead)
              in replace_day today (day today + days_ahead)))"

text \<open>
  The second component of an entry of \<open>date_patterns\<close> is a lambda: two of them take no
  argument, the third takes the match.  Calling a lambda with the wrong number of
  arguments raises \<open>TypeError\<close>; \<open>callable\<close> is true of every lambda.
\<close>

datatype date_func = Lambda0 "date \<Rightarrow> error + date" | Lambda1 "date \<Rightarrow> string \<Rightarrow> error + date"

fun callable :: "date_func \<Rightarrow> bool" where
  "callable (Lambda0 f) = True"
| "callable (Lambda1 g) = True"

fun call0 :: "date \<Rightarrow> date_func \<Rightarrow> error + date" where
  "call0 now (Lambda0 f) = f now"
| "call0 now (Lambda1 g) = Inl TypeError"

fun call1 :: "date \<Rightarrow> date_func \<Rightarrow> string \<Rightarrow> error + date" where
  "call1 now (Lambda0 f) m = Inl TypeError"
| "call1 now (Lambda1 g) m = g now m"

definition today_pattern :: pattern where
  "today_pattern = [''today'']"

definition tomorrow_pattern :: pattern where
  "tomorrow_pattern = [''tomorrow'']"

definition weekday_pattern :: pattern where
  "weekday_pattern = [''monday'', ''tuesday'', ''wednesday'', ''thursday'', ''friday'',
                      ''saturday'', ''sunday'']"

definition today_rule :: "pattern \<times> date_func" where
  "today_rule = (today_pattern, Lambda0 (\<lambda>now. Inr now))"

definition tomorrow_rule :: "pattern \<times> date_func" where
  "tomorrow_rule = (tomorrow_pattern, Lambda0 (\<lambda>now. replace_day now (day now + 1)))"

definition weekday_rule :: "pattern \<times> date_func" where
  "weekday_rule = (weekday_pattern, Lambda1 (\<lambda>now m. get_next_weekday now m))"

definition date_patterns :: "(pattern \<times> date_func) list" where
  "date_patterns = [today_rule, tomorrow_rule, weekday_rule]"

text \<open>The dictionary that the parser returns: the key \<open>title\<close> is always present, each
  of the other three keys may be absent.\<close>

record ParseResult =
  title :: string
  due_date :: "date option"
  tags :: "string list option"
  priority :: "int option"

text \<open>The \<open>for\<close> loop over \<open>date_patterns\<close>: the body of \<open>try\<close> sets both fields and
  breaks; \<open>except: pass\<close> goes on with the next entry.\<close>

fun parse_dates :: "date \<Rightarrow> string \<Rightarrow> (pattern \<times> date_func) list \<Rightarrow> ParseResult \<Rightarrow> ParseResult"
  where
  "parse_dates now text [] result = result"
| "parse_dates now text ((pat, date_func) # rest) result =
     (case re_search pat text of
        None \<Rightarrow> parse_dates now text rest result
      | Some m \<Rightarrow>
          (case (if callable date_func then call0 now date_func else call1 now date_func m) of
             Inr d \<Rightarrow> result\<lparr>due_date := Some d, title := strip (re_sub pat text)\<rparr>
           | Inl e \<Rightarrow> parse_dates now text rest result))"

text \<open>The tag stage and the priority stage: both test the input \<open>text\<close> and edit
  \<open>result['title']\<close>.\<close>

definition parse_tags :: "string \<Rightarrow> ParseResult \<Rightarrow> ParseResult" where
  "parse_tags text result =
     (let tag_matches = findall_tags text
      in if tag_matches \<noteq> []
         then result\<lparr>tags := Some tag_matches, title := strip (sub_tags (title result))\<rparr>
         else result)"

definition parse_priority :: "string \<Rightarrow> ParseResult \<Rightarrow> ParseResult" where
  "parse_priority text result =
     (if contains ''!!!'' text
      then result\<lparr>priority := Some 3, title := strip (str_remove ''!!!'' (title result))\<rparr>
      else if contains ''!!'' text
      then result\<lparr>priority := Some 2, title := strip (str_remove ''!!'' (title result))\<rparr>
      else result)"

text \<open>\<open>result = {'title': text.strip()}\<close>, and the three stages in the order of the
  source.  \<open>parse_with\<close> takes the list of date rules as an argument, so that the parser
  can be compared with one that has fewer rules; \<open>parse_natural_language\<close> is the function
  of the source.\<close>

definition initial_result :: "string \<Rightarrow> ParseResult" where
  "initial_result text = \<lparr>title = strip text, due_date = None, tags = None, priority = None\<rparr>"

definition parse_with :: "(pattern \<times> date_func) list \<Rightarrow> date \<Rightarrow> string \<Rightarrow> ParseResult" where
  "parse_with rules now text =
     parse_priority text (parse_tags text (parse_dates now text rules (initial_result text)))"

definition parse_natural_language :: "date \<Rightarrow> string \<Rightarrow> ParseResult" where
  "parse_natural_language now text = parse_with date_patterns now text"

section \<open>Auxiliary notions\<close>

text \<open>A string is trimmed when \<open>strip\<close> leaves it as it is; \<open>ref_date\<close> is the reference
  date of the examples, Friday 2024-03-15.\<close>

definition trimmed :: "string \<Rightarrow> bool" where
  "trimmed s = (strip s = s)"

definition ref_date :: date where
  "ref_date = \<lparr>year = 2024, month = 3, day = 15\<rparr>"

text \<open>The length of the run of \<open>c\<close> at the start of a string.\<close>

definition run :: "char \<Rightarrow> string \<Rightarrow> nat" where
  "run c s = length (takeWhile (\<lambda>x. x = c) s)"

section \<open>Words of a string\<close>

text \<open>
  A string is a first run of word characters followed by separators (characters that
  are not word characters), each with the run of word characters after it; every run
  may be empty.  \<open>toks\<close> computes this decomposition and \<open>untoks\<close> puts the string
  together again.  The \<open>words\<close> of a string are its non-empty runs, that is, its maximal
  runs of word characters, from left to right.
\<close>

fun toks :: "string \<Rightarrow> string \<times> (char \<times> string) list" where
  "toks [] = ([], [])"
| "toks (c # cs) =
     (if is_word c then (c # fst (toks cs), snd (toks cs))
      else ([], (c, fst (toks cs)) # snd (toks cs)))"

definition untoks :: "string \<times> (char \<times> string) list \<Rightarrow> string" where
  "untoks t = fst t @ concat (map (\<lambda>(x, u). x # u) (snd t))"

definition words :: "string \<Rightarrow> string list" where
  "words s = filter (\<lambda>w. w \<noteq> []) (fst (toks s) # map snd (snd (toks s)))"

definition is_tag :: "char \<times> string \<Rightarrow> bool" where
  "is_tag xu = (fst xu = CHR ''#'' \<and> snd xu \<noteq> [])"

text \<open>A pattern is wordy when its alternatives consist of word characters; a word
  hits a pattern when it equals one of its non-empty alternatives up to case;
  \<open>erase\<close> empties a word that hits.\<close>

definition wordy :: "pattern \<Rightarrow> bool" where
  "wordy p = (\<forall>a\<in>set p. \<forall>c\<in>set a. is_word c)"

definition hit :: "pattern \<Rightarrow> string \<Rightarrow> bool" where
  "hit p w = (\<exists>a\<in>set p. a \<noteq> [] \<and> lower w = lower a)"

definition erase :: "pattern \<Rightarrow> string \<Rightarrow> string" where
  "erase p w = (if hit p w then [] else w)"

section \<open>Stages and hashtags\<close>

text \<open>The result after the date stage and after the tag stage of the parser.\<close>

definition after_dates :: "date \<Rightarrow> string \<Rightarrow> ParseResult" where
  "after_dates now text = parse_dates now text date_patterns (initial_result text)"

definition after_tags :: "date \<Rightarrow> string \<Rightarrow> ParseResult" where
  "after_tags now text = parse_tags text (after_dates now text)"

text \<open>
  The hashtags of a string, as the specification words them: for every position that
  holds a hash sign with a word character right after it, from left to right, the longest
  run of word characters after the hash sign.
\<close>

definition tag_positions :: "string \<Rightarrow> nat list" where
  "tag_positions s =
     filter (\<lambda>i. s ! i = CHR ''#'' \<and> Suc i < length s \<and> is_word (s ! Suc i)) [0..<length s]"

definition hashtags_spec :: "string \<Rightarrow> string list" where
  "hashtags_spec s = map (\<lambda>i. takeWhile is_word (drop (Suc i) s)) (tag_positions s)"

section \<open>Basic facts\<close>

subsection \<open>Equations for evaluation\<close>

text \<open>The same functions, written as decision trees so that evaluating them on a
  concrete string stops at the first test that decides.\<close>

lemma is_word_code [code]:
  "is_word c = (let n = code c in
     if n < 97 then (if n < 65 then (if n < 48 then False else n \<le> 57)
                     else (if n \<le> 90 then True else n = 95))
     else if n \<le> 122 then True
     else if n < 192 then
       (n = 170 \<or> n = 178 \<or> n = 179 \<or> n = 181 \<or> n = 185 \<or> n = 186 \<or>
        n = 188 \<or> n = 189 \<or> n = 190)
     else (n \<noteq> 215 \<and> n \<noteq> 247))"
  by (auto simp: is_word_def Let_def)

lemma is_space_code [code]:
  "is_space c = (let n = code c in
     if n \<le> 32 then (if n < 28 then (if n < 9 then False else n \<le> 13) else True)
     else (n = 133 \<or> n = 160))"
  by (auto simp: is_space_def Let_def)

lemma lower_char_code [code]:
  "lower_char c = (let n = code c in
     if n < 65 then c
     else if n \<le> 90 then char_of (n + 32)
     else if n < 192 then c
     else if n \<le> 222 \<and> n \<noteq> 215 then char_of (n + 32)
     else c)"
  by (auto simp: lower_char_def Let_def)

lemma alt_matches_code [code]:
  "alt_matches pw s a =
     (if a = [] then False
      else if pw = word_at s then False
      else if length s < length a then False
      else if lower (take (length a) s) \<noteq> lower a then False
      else is_word (last (take (length a) s)) \<noteq> word_at (drop (length a) s))"
  by (auto simp: alt_matches_def)

lemma toks_code [code]:
  "toks [] = ([], [])"
  "toks (c # cs) =
     (case toks cs of (w, ps) \<Rightarrow> if is_word c then (c # w, ps) else ([], (c, w) # ps))"
  by (simp_all add: split_def)


subsection \<open>Character facts\<close>

lemma space_not_word: "is_space c \<Longrightarrow> \<not> is_word c"
  by (auto simp: is_space_def is_word_def Let_def)

lemma hash_not_word [simp]: "\<not> is_word CHR ''#''"
  by (simp add: is_word_def code_def)

lemma bang_not_word [simp]: "\<not> is_word CHR ''!''"
  by (simp add: is_word_def code_def)

lemma hash_not_space [simp]: "\<not> is_space CHR ''#''"
  by (simp add: is_space_def code_def)

lemma bang_not_space [simp]: "\<not> is_space CHR ''!''"
  by (simp add: is_space_def code_def)

subsection \<open>strip\<close>

lemma rstrip_Nil [simp]: "rstrip [] = []"
  by (simp add: rstrip_def)

lemma rstrip_Cons:
  "rstrip (c # cs) = (if rstrip cs = [] \<and> is_space c then [] else c # rstrip cs)"
  by (auto simp: rstrip_def dropWhile_append)

lemma rstrip_eq_Nil: "rstrip s = [] \<longleftrightarrow> (\<forall>c\<in>set s. is_space c)"
  by (induction s) (auto simp: rstrip_Cons)

lemma last_rstrip: "rstrip s \<noteq> [] \<Longrightarrow> \<not> is_space (last (rstrip s))"
  unfolding rstrip_def using hd_dropWhile[of is_space "rev s"] by (simp add: last_rev)

lemma hd_rstrip: "rstrip s \<noteq> [] \<Longrightarrow> hd (rstrip s) = hd s"
  by (cases s) (auto simp: rstrip_Cons split: if_splits)

lemma hd_lstrip: "lstrip s \<noteq> [] \<Longrightarrow> \<not> is_space (hd (lstrip s))"
  unfolding lstrip_def by (rule hd_dropWhile)

lemma strip_ends:
  "strip s \<noteq> [] \<Longrightarrow> \<not> is_space (hd (strip s)) \<and> \<not> is_space (last (strip s))"
  unfolding strip_def
  by (metis hd_lstrip hd_rstrip last_rstrip rstrip_Nil)

lemma lstrip_id: "s = [] \<or> \<not> is_space (hd s) \<Longrightarrow> lstrip s = s"
  by (cases s) (auto simp: lstrip_def)

lemma rstrip_id: "s = [] \<or> \<not> is_space (last s) \<Longrightarrow> rstrip s = s"
  by (induction s) (auto simp: rstrip_Cons rstrip_eq_Nil split: if_splits)

lemma strip_strip [simp]: "strip (strip s) = strip s"
proof (cases "strip s = []")
  case True
  then show ?thesis by (simp add: strip_def lstrip_def)
next
  case False
  with strip_ends[of s] show ?thesis
    by (simp add: strip_def[of "strip s"] lstrip_id rstrip_id)
qed

lemma strip_all_space:
  assumes "\<forall>c\<in>set s. is_space c"
  shows "strip s = []"
proof -
  have "dropWhile is_space s = []" using assms by simp
  then show ?thesis by (simp only: strip_def lstrip_def rstrip_Nil)
qed

lemma strip_decomp: "\<exists>l r. s = l @ strip s @ r"
proof -
  have r: "\<exists>r. t = rstrip t @ r" for t
    unfolding rstrip_def
    by (metis rev_append rev_rev_ident takeWhile_dropWhile_id)
  have l: "\<exists>l. s = l @ lstrip s"
    unfolding lstrip_def by (metis takeWhile_dropWhile_id)
  from l obtain l where "s = l @ lstrip s" ..
  moreover from r[of "lstrip s"] obtain r where "lstrip s = rstrip (lstrip s) @ r" ..
  ultimately show ?thesis unfolding strip_def by metis
qed

subsection \<open>Titles are trimmed\<close>

lemma title_parse_dates:
  "trimmed (title r) \<Longrightarrow> trimmed (title (parse_dates now text rules r))"
  by (induction now "text" rules r rule: parse_dates.induct)
     (auto simp: trimmed_def split: option.splits sum.splits)

lemma title_parse_tags: "trimmed (title r) \<Longrightarrow> trimmed (title (parse_tags text r))"
  by (auto simp: parse_tags_def Let_def trimmed_def)

lemma title_parse_priority: "trimmed (title r) \<Longrightarrow> trimmed (title (parse_priority text r))"
  by (auto simp: parse_priority_def trimmed_def)

lemma title_parse_with: "trimmed (title (parse_with rules now text))"
  unfolding parse_with_def
  by (intro title_parse_priority title_parse_tags title_parse_dates)
     (simp add: initial_result_def trimmed_def)


subsection \<open>Substring test\<close>

lemma starts_with_iff: "starts_with old s \<longleftrightarrow> (\<exists>b. s = old @ b)"
  unfolding starts_with_def by (metis append_eq_conv_conj append_take_drop_id)

lemma contains_iff: "contains old s \<longleftrightarrow> (\<exists>a b. s = a @ old @ b)"
proof (induction s)
  case Nil
  then show ?case by auto
next
  case (Cons c cs)
  have "(\<exists>a b. c # cs = a @ old @ b) \<longleftrightarrow> (\<exists>b. c # cs = old @ b) \<or> (\<exists>a b. cs = a @ old @ b)"
    (is "?L \<longleftrightarrow> ?R")
  proof
    assume ?L
    then obtain a b where ab: "c # cs = a @ old @ b" by blast
    show ?R
    proof (cases a)
      case Nil
      with ab show ?thesis by auto
    next
      case (Cons x a')
      with ab have "cs = a' @ old @ b" by simp
      then show ?thesis by blast
    qed
  next
    assume ?R
    then show ?L
    proof
      assume "\<exists>b. c # cs = old @ b"
      then obtain b where "c # cs = [] @ old @ b" by auto
      then show ?L by blast
    next
      assume "\<exists>a b. cs = a @ old @ b"
      then obtain a b where "c # cs = (c # a) @ old @ b" by auto
      then show ?L by blast
    qed
  qed
  with Cons show ?case by (simp add: starts_with_iff)
qed

lemma contains_strip: "contains old (strip s) \<Longrightarrow> contains old s"
proof -
  assume "contains old (strip s)"
  then obtain a b where ab: "strip s = a @ old @ b" by (auto simp: contains_iff)
  obtain l r where "s = l @ strip s @ r" using strip_decomp by blast
  with ab have "s = (l @ a) @ old @ (b @ r)" by simp
  then show ?thesis unfolding contains_iff by blast
qed

lemma contains_set: "contains old s \<Longrightarrow> set old \<subseteq> set s"
  by (auto simp: contains_iff)

lemma contains_bang3_bang2: "contains ''!!!'' s \<Longrightarrow> contains ''!!'' s"
proof -
  assume "contains ''!!!'' s"
  then obtain a b where "s = a @ ''!!!'' @ b" by (auto simp: contains_iff)
  then have "s = a @ ''!!'' @ (''!'' @ b)" by simp
  then show ?thesis unfolding contains_iff by blast
qed

subsection \<open>Removing a run of one character\<close>

lemma run_Nil [simp]: "run c [] = 0"
  by (simp add: run_def)

lemma run_Cons [simp]: "run c (x # xs) = (if x = c then Suc (run c xs) else 0)"
  by (simp add: run_def)

lemma starts_with_replicate: "starts_with (replicate n c) s \<longleftrightarrow> n \<le> run c s"
proof (induction n arbitrary: s)
  case 0
  then show ?case by (simp add: starts_with_def)
next
  case (Suc n)
  show ?case
  proof (cases s)
    case Nil
    then show ?thesis by (simp add: starts_with_def)
  next
    case (Cons x xs)
    with Suc[of xs] show ?thesis by (auto simp: starts_with_def)
  qed
qed

lemma run_drop: "n \<le> run c s \<Longrightarrow> run c (drop n s) = run c s - n"
proof (induction n arbitrary: s)
  case 0
  then show ?case by simp
next
  case (Suc n)
  then show ?case by (cases s) (auto split: if_splits)
qed

lemma run_str_remove:
  assumes "0 < n"
  shows "run c (str_remove (replicate n c) s) = run c s mod n"
proof (induction "replicate n c" s rule: str_remove.induct)
  case 1
  then show ?case by simp
next
  case (2 x xs)
  show ?case
  proof (cases "starts_with (replicate n c) (x # xs)")
    case True
    then have le: "n \<le> run c (x # xs)" by (simp add: starts_with_replicate)
    have d: "drop (n - 1) xs = drop n (x # xs)" using assms by (cases n) auto
    have "run c (str_remove (replicate n c) (x # xs)) = run c (drop n (x # xs)) mod n"
      using True assms 2(1) d by simp
    also have "\<dots> = (run c (x # xs) - n) mod n" using le by (simp only: run_drop)
    also have "\<dots> = run c (x # xs) mod n" using le by (simp add: le_mod_geq)
    finally show ?thesis .
  next
    case False
    then have lt: "run c (x # xs) < n" by (simp add: starts_with_replicate)
    show ?thesis
    proof (cases "x = c")
      case True
      with lt have "run c xs < n" by simp
      with False 2(2) True lt show ?thesis by simp
    next
      case False
      with \<open>\<not> starts_with (replicate n c) (x # xs)\<close> show ?thesis by simp
    qed
  qed
qed

lemma not_contains_str_remove:
  assumes "0 < n"
  shows "\<not> contains (replicate n c) (str_remove (replicate n c) s)"
proof (induction "replicate n c" s rule: str_remove.induct)
  case 1
  then show ?case using assms by simp
next
  case (2 x xs)
  show ?case
  proof (cases "starts_with (replicate n c) (x # xs)")
    case True
    with 2(1) assms show ?thesis by simp
  next
    case False
    then have lt: "run c (x # xs) < n" by (simp add: starts_with_replicate)
    have "run c (x # str_remove (replicate n c) xs) < n"
    proof (cases "x = c")
      case True
      with lt have "run c xs < n - 1" by simp
      then have "run c xs mod n = run c xs" by simp
      with True lt show ?thesis by (simp add: run_str_remove[OF assms])
    next
      case False
      then show ?thesis using assms by simp
    qed
    then have "\<not> starts_with (replicate n c) (x # str_remove (replicate n c) xs)"
      by (simp add: starts_with_replicate)
    with False 2(2) show ?thesis by simp
  qed
qed

lemma bang3: "''!!!'' = replicate 3 CHR ''!''"
  by (simp add: numeral_3_eq_3)

lemma bang2: "''!!'' = replicate 2 CHR ''!''"
  by (simp add: numeral_2_eq_2)

lemma no_bang3_after_remove: "\<not> contains ''!!!'' (strip (str_remove ''!!!'' s))"
  using not_contains_str_remove[of 3 "CHR ''!''" s] contains_strip[of "''!!!''"]
  unfolding bang3 by auto

lemma no_bang2_after_remove: "\<not> contains ''!!'' (strip (str_remove ''!!'' s))"
  using not_contains_str_remove[of 2 "CHR ''!''" s] contains_strip[of "''!!''"]
  unfolding bang2 by auto

subsection \<open>Stages\<close>

lemma parse_priority_priority:
  "priority (parse_priority text r) =
     (if contains ''!!!'' text then Some 3 else if contains ''!!'' text then Some 2 else priority r)"
  by (simp add: parse_priority_def)

lemma priority_parse_tags [simp]: "priority (parse_tags text r) = priority r"
  by (simp add: parse_tags_def Let_def)

lemma priority_parse_dates [simp]: "priority (parse_dates now text rules r) = priority r"
  by (induction now "text" rules r rule: parse_dates.induct)
     (auto split: option.splits sum.splits)

lemma tags_parse_dates [simp]: "tags (parse_dates now text rules r) = tags r"
  by (induction now "text" rules r rule: parse_dates.induct)
     (auto split: option.splits sum.splits)

lemma parse_dates_no_match:
  "(\<forall>pf\<in>set rules. re_search (fst pf) text = None) \<Longrightarrow> parse_dates now text rules r = r"
  by (induction now "text" rules r rule: parse_dates.induct) auto

lemma parse_dates_weekday_rule [simp]:
  "parse_dates now text (weekday_rule # rules) r = parse_dates now text rules r"
  by (simp add: weekday_rule_def split: option.splits)

subsection \<open>Whitespace-only input\<close>

lemma match_here_not_word: "\<not> word_at s \<Longrightarrow> match_here p False s = None"
  by (induction p) (auto simp: match_here_def alt_matches_def)

lemma re_search_from_no_word:
  "(\<forall>c\<in>set s. \<not> is_word c) \<Longrightarrow> re_search_from p False s = None"
  by (induction s) (auto simp: match_here_not_word word_at_def)

lemma findall_tags_no_hash: "CHR ''#'' \<notin> set s \<Longrightarrow> findall_tags s = []"
  by (induction s) auto

subsection \<open>Failure of a date computation\<close>

lemma tomorrow_fails:
  "day now = days_in_month (year now) (month now) \<Longrightarrow>
   replace_day now (day now + 1) = Inl ValueError"
  by (simp add: replace_day_def valid_date_def)

subsection \<open>Matching whole words\<close>

lemma untoks_toks: "untoks (toks s) = s"
  by (induction s) (auto simp: untoks_def)

lemma fst_toks: "fst (toks s) = takeWhile is_word s"
  by (induction s) auto

lemma snd_toks_dropWhile: "snd (toks (dropWhile is_word s)) = snd (toks s)"
  by (induction s) auto

lemma takeWhile_dropWhile_word [simp]: "takeWhile is_word (dropWhile is_word s) = []"
  by (induction s) auto

lemma toks_dropWhile: "toks (dropWhile is_word s) = ([], snd (toks s))"
  by (simp add: prod_eq_iff fst_toks snd_toks_dropWhile)

lemma is_word_lower_char [simp]: "is_word (lower_char c) = is_word c"
  by (auto simp: is_word_def lower_char_def code_def Let_def)

lemma lower_Nil [simp]: "lower [] = []"
  by (simp add: lower_def)

lemma lower_eq_Nil [simp]: "lower s = [] \<longleftrightarrow> s = []" "[] = lower s \<longleftrightarrow> s = []"
  by (auto simp: lower_def)

lemma length_lower [simp]: "length (lower s) = length s"
  by (simp add: lower_def)

lemma lower_eq_length: "lower u = lower a \<Longrightarrow> length u = length a"
  by (metis length_lower)

lemma lower_eq_all_word:
  "lower u = lower a \<Longrightarrow> \<forall>c\<in>set a. is_word c \<Longrightarrow> \<forall>c\<in>set u. is_word c"
proof (induction u arbitrary: a)
  case Nil
  then show ?case by simp
next
  case (Cons x u)
  then obtain y a' where a: "a = y # a'" by (cases a) (auto simp: lower_def)
  with Cons.prems have "lower_char x = lower_char y" "lower u = lower a'" "is_word y"
    "\<forall>c\<in>set a'. is_word c"
    by (auto simp: lower_def)
  with Cons.IH[of a'] show ?case by (metis is_word_lower_char set_ConsD)
qed

lemma hit_Nil [simp]: "\<not> hit p []"
  by (auto simp: hit_def)

lemma word_at_takeWhile: "word_at s \<longleftrightarrow> takeWhile is_word s \<noteq> []"
  by (cases s) (auto simp: word_at_def)

lemma not_word_at_dropWhile [simp]: "\<not> word_at (dropWhile is_word s)"
  by (induction s) (auto simp: word_at_def)

lemma alt_matches_wordy:
  assumes "\<forall>c\<in>set a. is_word c"
  shows "alt_matches pw s a \<longleftrightarrow>
           \<not> pw \<and> a \<noteq> [] \<and> lower (takeWhile is_word s) = lower a"
proof
  assume m: "alt_matches pw s a"
  let ?t = "take (length a) s"
  from m have ne: "a \<noteq> []" and pw: "pw \<noteq> word_at s" and len: "length a \<le> length s"
    and low: "lower ?t = lower a" and bd: "is_word (last ?t) \<noteq> word_at (drop (length a) s)"
    by (auto simp: alt_matches_def)
  from low assms have allw: "\<forall>c\<in>set ?t. is_word c" by (rule lower_eq_all_word)
  from ne len have tne: "?t \<noteq> []" by auto
  then have "is_word (last ?t)" using allw last_in_set by blast
  with bd have nd: "\<not> word_at (drop (length a) s)" by simp
  then have "takeWhile is_word (drop (length a) s) = []" by (simp add: word_at_takeWhile)
  with allw have tw: "takeWhile is_word s = ?t"
    by (metis append_Nil2 append_take_drop_id takeWhile_append2)
  with tne have "word_at s" by (simp add: word_at_takeWhile)
  with pw ne low tw show "\<not> pw \<and> a \<noteq> [] \<and> lower (takeWhile is_word s) = lower a" by simp
next
  let ?w = "takeWhile is_word s"
  assume r: "\<not> pw \<and> a \<noteq> [] \<and> lower ?w = lower a"
  then have len: "length ?w = length a" using lower_eq_length by blast
  with r have wne: "?w \<noteq> []" by auto
  have tk: "take (length a) s = ?w" using len by (metis takeWhile_eq_take)
  have dr: "drop (length a) s = dropWhile is_word s" using len by (metis dropWhile_eq_drop)
  have "is_word (last ?w)" using wne by (meson last_in_set set_takeWhileD)
  moreover have "length a \<le> length s" using len by (metis length_takeWhile_le)
  ultimately show "alt_matches pw s a"
    using r wne by (simp add: alt_matches_def tk dr word_at_takeWhile)
qed

lemma match_here_wordy:
  assumes "wordy p"
  shows "match_here p pw s =
           (if \<not> pw \<and> hit p (takeWhile is_word s) then Some (takeWhile is_word s) else None)"
proof (cases "find (alt_matches pw s) p")
  case None
  then have "\<not> (\<exists>a\<in>set p. alt_matches pw s a)" by (simp add: find_None_iff)
  with assms have "\<not> (\<not> pw \<and> hit p (takeWhile is_word s))"
    by (auto simp: hit_def wordy_def alt_matches_wordy)
  with None show ?thesis by (simp add: match_here_def)
next
  case (Some a)
  then have a: "a \<in> set p" "alt_matches pw s a" by (auto simp: find_Some_iff)
  with assms have w: "\<forall>c\<in>set a. is_word c" by (simp add: wordy_def)
  with a have r: "\<not> pw" "a \<noteq> []" "lower (takeWhile is_word s) = lower a"
    by (simp_all add: alt_matches_wordy)
  then have "length (takeWhile is_word s) = length a" using lower_eq_length by blast
  then have "take (length a) s = takeWhile is_word s" by (metis takeWhile_eq_take)
  moreover have "hit p (takeWhile is_word s)" using a(1) r by (auto simp: hit_def)
  ultimately show ?thesis using Some r by (simp add: match_here_def)
qed


lemma re_sub_from_wordy:
  assumes "wordy p"
  shows "re_sub_from p pw (c # cs) =
           (if \<not> pw \<and> hit p (takeWhile is_word (c # cs))
            then re_sub_from p True (dropWhile is_word cs)
            else c # re_sub_from p (is_word c) cs)"
proof (cases "\<not> pw \<and> hit p (takeWhile is_word (c # cs))")
  case False
  then show ?thesis
    by (auto simp add: match_here_wordy[OF assms] simp del: takeWhile.simps)
next
  case True
  let ?m = "takeWhile is_word (c # cs)"
  have c: "is_word c"
  proof (rule ccontr)
    assume "\<not> is_word c"
    then have "?m = []" by simp
    with True show False by (simp only: hit_Nil simp_thms)
  qed
  have m: "?m = c # takeWhile is_word cs" using c by simp
  have l: "is_word (last ?m)" using m by (metis last_in_set list.discI set_takeWhileD)
  have d: "drop (length ?m - 1) cs = dropWhile is_word cs"
    unfolding m by (simp add: dropWhile_eq_drop)
  have "match_here p pw (c # cs) = Some ?m"
    using True by (simp add: match_here_wordy[OF assms] del: takeWhile.simps)
  then have "re_sub_from p pw (c # cs) = re_sub_from p True (dropWhile is_word cs)"
    using l d by (simp del: takeWhile.simps)
  with True show ?thesis by (simp del: takeWhile.simps)
qed

lemma re_search_from_wordy:
  assumes "wordy p"
  shows "re_search_from p pw (c # cs) =
           (if \<not> pw \<and> hit p (takeWhile is_word (c # cs))
            then Some (takeWhile is_word (c # cs))
            else re_search_from p (is_word c) cs)"
  by (simp add: match_here_wordy[OF assms] del: takeWhile.simps)


lemma erase_Nil [simp]: "erase p [] = []"
  by (simp add: erase_def)

lemma toks_re_sub_from:
  assumes "wordy p"
  shows "toks (re_sub_from p pw s) =
           ((if pw then fst (toks s) else erase p (fst (toks s))),
            map (\<lambda>(x, u). (x, erase p u)) (snd (toks s)))"
proof (induction "length s" arbitrary: s pw rule: less_induct)
  case less
  show ?case
  proof (cases s)
    case Nil
    then show ?thesis by simp
  next
    case (Cons c cs)
    show ?thesis
    proof (cases "\<not> pw \<and> hit p (takeWhile is_word (c # cs))")
      case True
      then have c: "is_word c" by (auto split: if_splits)
      have "length (dropWhile is_word cs) < length s"
        using Cons by (simp add: length_dropWhile_le less_Suc_eq_le)
      from less[OF this, of True]
      have "toks (re_sub_from p True (dropWhile is_word cs)) =
              ([], map (\<lambda>(x, u). (x, erase p u)) (snd (toks cs)))"
        by (simp add: toks_dropWhile)
      moreover have "re_sub_from p pw (c # cs) = re_sub_from p True (dropWhile is_word cs)"
        using True by (simp add: re_sub_from_wordy[OF assms] del: re_sub_from.simps takeWhile.simps)
      moreover have "erase p (fst (toks (c # cs))) = []"
        using True c by (simp add: erase_def fst_toks)
      ultimately show ?thesis using Cons True c by simp
    next
      case False
      have r: "re_sub_from p pw (c # cs) = c # re_sub_from p (is_word c) cs"
        using False by (auto simp add: re_sub_from_wordy[OF assms] simp del: re_sub_from.simps takeWhile.simps)
      have "length cs < length s" using Cons by simp
      note ih = less[OF this, of "is_word c"]
      show ?thesis
      proof (cases "is_word c")
        case True
        with False have "pw \<or> \<not> hit p (c # fst (toks cs))" by (auto simp: fst_toks)
        then have "pw \<or> erase p (c # fst (toks cs)) = c # fst (toks cs)"
          by (auto simp: erase_def)
        with True ih show ?thesis
          unfolding Cons r by (auto simp del: re_sub_from.simps)
      next
        case False
        with ih show ?thesis
          unfolding Cons r by (auto simp del: re_sub_from.simps)
      qed
    qed
  qed
qed

lemma toks_sub_tags:
  "toks (sub_tags s) = (fst (toks s), filter (\<lambda>xu. \<not> is_tag xu) (snd (toks s)))"
proof (induction s rule: sub_tags.induct)
  case 1
  then show ?case by simp
next
  case (2 c cs)
  show ?case
  proof (cases "c = CHR ''#'' \<and> takeWhile is_word cs \<noteq> []")
    case True
    with 2(1) show ?thesis by (simp add: toks_dropWhile is_tag_def fst_toks)
  next
    case False
    with 2(2) show ?thesis by (auto simp: is_tag_def fst_toks)
  qed
qed

lemma findall_tags_toks: "findall_tags s = map snd (filter is_tag (snd (toks s)))"
proof (induction s rule: findall_tags.induct)
  case 1
  then show ?case by simp
next
  case (2 c cs)
  show ?case
  proof (cases "c = CHR ''#'' \<and> takeWhile is_word cs \<noteq> []")
    case True
    with 2(1) show ?thesis by (simp add: toks_dropWhile is_tag_def fst_toks)
  next
    case False
    with 2(2) show ?thesis by (auto simp: is_tag_def fst_toks)
  qed
qed

lemma re_search_from_toks:
  assumes "wordy p"
  shows "re_search_from p pw s =
           find (hit p) (if pw then map snd (snd (toks s)) else fst (toks s) # map snd (snd (toks s)))"
proof (induction s arbitrary: pw)
  case Nil
  then show ?case by simp
next
  case (Cons c cs)
  show ?case
  proof (cases "is_word c")
    case True
    with Cons[of True] show ?thesis
      by (simp add: re_search_from_wordy[OF assms] fst_toks del: re_search_from.simps)
  next
    case False
    with Cons[of False] show ?thesis
      by (simp add: re_search_from_wordy[OF assms] fst_toks del: re_search_from.simps)
  qed
qed


subsection \<open>Words and tags after each operation\<close>

lemma filter_erase:
  "filter (\<lambda>w. w \<noteq> []) (map (erase p) xs) =
     filter (\<lambda>w. \<not> hit p w) (filter (\<lambda>w. w \<noteq> []) xs)"
  by (induction xs) (auto simp: erase_def)

lemma words_re_sub:
  assumes "wordy p"
  shows "words (re_sub p s) = filter (\<lambda>w. \<not> hit p w) (words s)"
proof -
  have "fst (toks (re_sub p s)) # map snd (snd (toks (re_sub p s))) =
          map (erase p) (fst (toks s) # map snd (snd (toks s)))"
    by (simp add: re_sub_def toks_re_sub_from[OF assms] split_def comp_def)
  then show ?thesis unfolding words_def by (simp only: filter_erase)
qed

lemma tags_erase:
  "map snd (filter is_tag (map (\<lambda>(x, u). (x, erase p u)) ps)) =
     filter (\<lambda>w. \<not> hit p w) (map snd (filter is_tag ps))"
  by (induction ps) (auto simp: is_tag_def erase_def)

lemma findall_tags_re_sub:
  assumes "wordy p"
  shows "findall_tags (re_sub p s) = filter (\<lambda>w. \<not> hit p w) (findall_tags s)"
  by (simp add: findall_tags_toks re_sub_def toks_re_sub_from[OF assms] tags_erase)

lemma findall_tags_sub_tags [simp]: "findall_tags (sub_tags s) = []"
  by (simp add: findall_tags_toks toks_sub_tags)

lemma words_sub_tags: "set (words (sub_tags s)) \<subseteq> set (words s)"
  by (auto simp: words_def toks_sub_tags)

lemma find_hit_nonempty: "find (hit p) (filter (\<lambda>w. w \<noteq> []) xs) = find (hit p) xs"
  by (induction xs) auto

lemma re_search_words:
  assumes "wordy p"
  shows "re_search p s = find (hit p) (words s)"
  by (simp add: re_search_def re_search_from_toks[OF assms] words_def find_hit_nonempty
      del: filter.simps)

lemma re_search_None_iff:
  assumes "wordy p"
  shows "re_search p s = None \<longleftrightarrow> (\<forall>w\<in>set (words s). \<not> hit p w)"
  by (auto simp: re_search_words[OF assms] find_None_iff)

lemma words_Cons_nonword: "\<not> is_word c \<Longrightarrow> words (c # cs) = words cs"
  by (simp add: words_def)

lemma findall_tags_Cons_space: "is_space c \<Longrightarrow> findall_tags (c # cs) = findall_tags cs"
  by auto

lemma words_lstrip [simp]: "words (lstrip s) = words s"
  unfolding lstrip_def by (induction s) (auto simp: words_Cons_nonword space_not_word)

lemma findall_tags_lstrip [simp]: "findall_tags (lstrip s) = findall_tags s"
  unfolding lstrip_def by (induction s) auto

lemma toks_nonword:
  "\<forall>c\<in>set s. \<not> is_word c \<Longrightarrow> fst (toks s) = [] \<and> (\<forall>xu\<in>set (snd (toks s)). snd xu = [])"
  by (induction s) auto

lemma toks_rstrip:
  "fst (toks (rstrip s)) = fst (toks s) \<and>
   filter (\<lambda>xu. snd xu \<noteq> []) (snd (toks (rstrip s))) = filter (\<lambda>xu. snd xu \<noteq> []) (snd (toks s))"
proof (induction s)
  case Nil
  then show ?case by simp
next
  case (Cons c cs)
  show ?case
  proof (cases "rstrip cs = [] \<and> is_space c")
    case True
    then have "\<forall>x\<in>set (c # cs). \<not> is_word x"
      using space_not_word by (auto simp: rstrip_eq_Nil)
    from toks_nonword[OF this] have "fst (toks (c # cs)) = []"
      "filter (\<lambda>xu. snd xu \<noteq> []) (snd (toks (c # cs))) = []"
      by (auto simp del: toks.simps)
    with True show ?thesis by (simp add: rstrip_Cons)
  next
    case False
    then have "rstrip (c # cs) = c # rstrip cs" by (auto simp: rstrip_Cons)
    with Cons show ?thesis by simp
  qed
qed

lemma words_rstrip [simp]: "words (rstrip s) = words s"
proof -
  have "filter (\<lambda>w. w \<noteq> []) (map snd ps) = map snd (filter (\<lambda>xu. snd xu \<noteq> []) ps)"
    for ps :: "(char \<times> string) list"
    by (induction ps) auto
  then show ?thesis using toks_rstrip[of s] by (simp add: words_def)
qed

lemma findall_tags_rstrip [simp]: "findall_tags (rstrip s) = findall_tags s"
proof -
  have "filter is_tag ps = filter is_tag (filter (\<lambda>xu. snd xu \<noteq> []) ps)"
    for ps :: "(char \<times> string) list"
    by (induction ps) (auto simp: is_tag_def)
  then show ?thesis using toks_rstrip[of s] by (metis findall_tags_toks)
qed

lemma words_strip [simp]: "words (strip s) = words s"
  by (simp add: strip_def)

lemma findall_tags_strip [simp]: "findall_tags (strip s) = findall_tags s"
  by (simp add: strip_def)

subsection \<open>The date patterns\<close>

lemma wordy_today [simp]: "wordy today_pattern"
  by (simp add: wordy_def today_pattern_def is_word_def code_def)

lemma wordy_tomorrow [simp]: "wordy tomorrow_pattern"
  by (simp add: wordy_def tomorrow_pattern_def is_word_def code_def)

lemma hit_today: "hit today_pattern w \<longleftrightarrow> lower w = ''today''"
  by (simp add: hit_def today_pattern_def lower_def lower_char_def code_def)

lemma hit_tomorrow: "hit tomorrow_pattern w \<longleftrightarrow> lower w = ''tomorrow''"
  by (simp add: hit_def tomorrow_pattern_def lower_def lower_char_def code_def)

lemma hit_today_not_tomorrow: "hit today_pattern w \<Longrightarrow> \<not> hit tomorrow_pattern w"
  by (simp add: hit_today hit_tomorrow)

subsection \<open>The date stage\<close>

lemma parse_dates_today:
  "re_search today_pattern text \<noteq> None \<Longrightarrow>
   parse_dates now text date_patterns r =
     r\<lparr>due_date := Some now, title := strip (re_sub today_pattern text)\<rparr>"
  by (auto simp: date_patterns_def today_rule_def)

lemma parse_dates_tomorrow:
  "re_search today_pattern text = None \<Longrightarrow> re_search tomorrow_pattern text \<noteq> None \<Longrightarrow>
   replace_day now (day now + 1) = Inr d \<Longrightarrow>
   parse_dates now text date_patterns r =
     r\<lparr>due_date := Some d, title := strip (re_sub tomorrow_pattern text)\<rparr>"
  by (auto simp: date_patterns_def today_rule_def tomorrow_rule_def)

lemma parse_dates_none:
  "re_search today_pattern text = None \<Longrightarrow>
   re_search tomorrow_pattern text = None \<or> replace_day now (day now + 1) = Inl e \<Longrightarrow>
   parse_dates now text date_patterns r = r"
  by (auto simp: date_patterns_def today_rule_def tomorrow_rule_def split: option.splits)

lemma parse_dates_cases:
  obtains
    (today) "re_search today_pattern text \<noteq> None"
      "parse_dates now text date_patterns r =
         r\<lparr>due_date := Some now, title := strip (re_sub today_pattern text)\<rparr>"
  | (tomorrow) d where "re_search today_pattern text = None"
      "re_search tomorrow_pattern text \<noteq> None" "replace_day now (day now + 1) = Inr d"
      "parse_dates now text date_patterns r =
         r\<lparr>due_date := Some d, title := strip (re_sub tomorrow_pattern text)\<rparr>"
  | (none) "re_search today_pattern text = None"
      "re_search tomorrow_pattern text = None \<or> (\<exists>e. replace_day now (day now + 1) = Inl e)"
      "parse_dates now text date_patterns r = r"
proof (cases "re_search today_pattern text = None")
  case False
  then show ?thesis using parse_dates_today today by blast
next
  case True
  show ?thesis
  proof (cases "re_search tomorrow_pattern text = None")
    case t: True
    with True show ?thesis using parse_dates_none none by blast
  next
    case t: False
    show ?thesis
    proof (cases "replace_day now (day now + 1)")
      case (Inl e)
      with True show ?thesis using parse_dates_none none by blast
    next
      case (Inr d)
      with True t show ?thesis using parse_dates_tomorrow tomorrow by blast
    qed
  qed
qed

lemma due_date_parse_tags [simp]: "due_date (parse_tags text r) = due_date r"
  by (simp add: parse_tags_def Let_def)

lemma due_date_parse_priority [simp]: "due_date (parse_priority text r) = due_date r"
  by (simp add: parse_priority_def)

lemma tags_parse_priority [simp]: "tags (parse_priority text r) = tags r"
  by (simp add: parse_priority_def)

lemma tags_parse_tags:
  "tags (parse_tags text r) = (if findall_tags text = [] then tags r else Some (findall_tags text))"
  by (simp add: parse_tags_def Let_def)

lemma title_parse_tags_eq:
  "title (parse_tags text r) =
     (if findall_tags text = [] then title r else strip (sub_tags (title r)))"
  by (simp add: parse_tags_def Let_def)

lemma title_parse_priority_eq:
  "title (parse_priority text r) =
     (if contains ''!!!'' text then strip (str_remove ''!!!'' (title r))
      else if contains ''!!'' text then strip (str_remove ''!!'' (title r))
      else title r)"
  by (simp add: parse_priority_def)

lemma toks_re_sub:
  assumes "wordy p"
  shows "toks (re_sub p s) =
           (erase p (fst (toks s)), map (\<lambda>(x, u). (x, erase p u)) (snd (toks s)))"
  by (simp add: re_sub_def toks_re_sub_from[OF assms])

lemma words_after_re_sub:
  assumes "wordy p"
  shows "words (strip (re_sub p s)) = filter (\<lambda>w. \<not> hit p w) (words s)"
  by (simp add: words_re_sub[OF assms])

lemma re_search_after_re_sub:
  assumes "wordy p"
  shows "re_search p (strip (re_sub p s)) = None"
  by (simp add: re_search_None_iff[OF assms] words_re_sub[OF assms])

subsection \<open>The stages\<close>

lemma parse_stages:
  "parse_natural_language now text = parse_priority text (after_tags now text)"
  by (simp add: parse_natural_language_def parse_with_def after_tags_def after_dates_def)

lemma set_strip: "set (strip s) \<subseteq> set s"
proof -
  obtain l r where "s = l @ strip s @ r" using strip_decomp by blast
  then have "set s = set l \<union> set (strip s) \<union> set r" by (metis set_append sup_assoc)
  then show ?thesis by blast
qed

lemma set_re_sub_from: "set (re_sub_from p pw s) \<subseteq> set s"
  by (induction p pw s rule: re_sub_from.induct)
     (auto split: option.splits dest: in_set_dropD)

lemma set_sub_tags: "set (sub_tags s) \<subseteq> set s"
  by (induction s rule: sub_tags.induct) (auto dest: set_dropWhileD)

lemma after_dates_title_cases:
  "title (after_dates now text) = strip text \<or>
   title (after_dates now text) = strip (re_sub today_pattern text) \<or>
   title (after_dates now text) = strip (re_sub tomorrow_pattern text)"
  unfolding after_dates_def
  by (rule parse_dates_cases[of "text" now "initial_result text"])
     (simp_all add: initial_result_def)

lemma after_dates_set: "set (title (after_dates now text)) \<subseteq> set text"
  using after_dates_title_cases[of now "text"] set_strip set_re_sub_from
  unfolding re_sub_def by (metis subset_trans)

lemma after_dates_words: "set (words (title (after_dates now text))) \<subseteq> set (words text)"
  using after_dates_title_cases[of now "text"]
  by (auto simp: words_re_sub)

lemma after_dates_tags:
  "findall_tags text = [] \<Longrightarrow> findall_tags (title (after_dates now text)) = []"
  using after_dates_title_cases[of now "text"]
  by (auto simp: findall_tags_re_sub)

lemma after_tags_title:
  "title (after_tags now text) =
     (if findall_tags text = [] then title (after_dates now text)
      else strip (sub_tags (title (after_dates now text))))"
  by (simp add: after_tags_def title_parse_tags_eq)

lemma after_tags_set: "set (title (after_tags now text)) \<subseteq> set text"
  using after_dates_set[of now "text"] set_strip set_sub_tags
  by (simp add: after_tags_title) (metis subset_trans)

lemma after_tags_words:
  "set (words (title (after_tags now text))) \<subseteq> set (words (title (after_dates now text)))"
  by (simp add: after_tags_title words_sub_tags)

lemma after_tags_tags [simp]: "findall_tags (title (after_tags now text)) = []"
  by (simp add: after_tags_title after_dates_tags)

lemma after_dates_no_today:
  assumes "re_search today_pattern text \<noteq> None"
  shows "re_search today_pattern (title (after_dates now text)) = None"
  using assms by (simp add: after_dates_def parse_dates_today re_search_after_re_sub)

lemma after_dates_no_tomorrow:
  assumes "re_search today_pattern text = None" "re_search tomorrow_pattern text \<noteq> None"
    "replace_day now (day now + 1) = Inr d"
  shows "re_search tomorrow_pattern (title (after_dates now text)) = None"
  using assms by (simp add: after_dates_def parse_dates_tomorrow re_search_after_re_sub)

lemma priority_parse:
  "priority (parse_natural_language now text) =
     (if contains ''!!!'' text then Some 3 else if contains ''!!'' text then Some 2 else None)"
  by (simp add: parse_stages parse_priority_priority after_tags_def after_dates_def
      initial_result_def)

lemma tags_parse:
  "tags (parse_natural_language now text) =
     (if findall_tags text = [] then None else Some (findall_tags text))"
  by (simp add: parse_stages after_tags_def after_dates_def tags_parse_tags initial_result_def)

lemma title_no_bang3:
  assumes "priority (parse_natural_language now text) = Some 3"
  shows "\<not> contains ''!!!'' (title (parse_natural_language now text))"
proof -
  from assms have "contains ''!!!'' text"
    by (auto simp: priority_parse split: if_splits)
  then show ?thesis
    by (simp add: parse_stages title_parse_priority_eq no_bang3_after_remove)
qed

lemma title_no_bang2:
  assumes "priority (parse_natural_language now text) = Some 2"
  shows "\<not> contains ''!!'' (title (parse_natural_language now text))"
proof -
  from assms have "\<not> contains ''!!!'' text \<and> contains ''!!'' text"
    by (auto simp: priority_parse split: if_splits)
  then show ?thesis
    by (simp add: parse_stages title_parse_priority_eq no_bang2_after_remove)
qed

lemma title_no_priority:
  assumes "priority (parse_natural_language now text) = None"
  shows "title (parse_natural_language now text) = title (after_tags now text)"
proof -
  from assms have "\<not> contains ''!!!'' text \<and> \<not> contains ''!!'' text"
    by (auto simp: priority_parse split: if_splits)
  then show ?thesis
    by (simp add: parse_stages title_parse_priority_eq)
qed

subsection \<open>Parsing the title again\<close>

lemma due_date_parse:
  "due_date (parse_natural_language now text) = due_date (after_dates now text)"
  by (simp add: parse_stages after_tags_def)

lemma no_bang_no_priority:
  assumes "CHR ''!'' \<notin> set s"
  shows "\<not> contains ''!!'' s \<and> \<not> contains ''!!!'' s"
  using assms contains_set[of "''!!''" s] contains_bang3_bang2[of s] by auto

subsection \<open>Hashtags\<close>

lemma hashtags_Nil [simp]: "hashtags_spec [] = []"
  by (simp add: hashtags_spec_def tag_positions_def)

lemma tag_positions_Cons:
  "tag_positions (c # cs) =
     (if c = CHR ''#'' \<and> takeWhile is_word cs \<noteq> [] then [0] else []) @
     map Suc (tag_positions cs)"
proof -
  have u: "[0..<length (c # cs)] = 0 # map Suc [0..<length cs]"
    by (simp add: upt_conv_Cons map_Suc_upt del: upt_Suc)
  have z: "(cs \<noteq> [] \<and> is_word (cs ! 0)) \<longleftrightarrow> takeWhile is_word cs \<noteq> []"
    by (cases cs) auto
  show ?thesis
    unfolding tag_positions_def u using z
    by (auto simp: filter_map comp_def simp del: upt_Suc)
qed

lemma hashtags_Cons:
  "hashtags_spec (c # cs) =
     (if c = CHR ''#'' \<and> takeWhile is_word cs \<noteq> [] then [takeWhile is_word cs] else []) @
     hashtags_spec cs"
  by (simp add: hashtags_spec_def tag_positions_Cons comp_def)

lemma hashtags_dropWhile: "hashtags_spec (dropWhile is_word s) = hashtags_spec s"
  by (induction s) (auto simp: hashtags_Cons)

lemma findall_tags_hashtags: "findall_tags s = hashtags_spec s"
  by (induction s rule: findall_tags.induct) (auto simp: hashtags_Cons hashtags_dropWhile)

lemma title_no_bang:
  assumes "CHR ''!'' \<notin> set text"
  shows "title (parse_natural_language now text) = title (after_tags now text)"
  using no_bang_no_priority[OF assms] by (simp add: parse_stages title_parse_priority_eq)

lemma after_tags_no_hit:
  assumes "wordy p" and "re_search p (title (after_dates now text)) = None"
  shows "re_search p (title (after_tags now text)) = None"
  using assms(2) after_tags_words[of now "text"]
  unfolding re_search_None_iff[OF assms(1)] by blast

subsection \<open>Parsing the title again, whatever the weekday rule does\<close>

lemma wordy_weekday [simp]: "wordy weekday_pattern"
  by (simp add: wordy_def weekday_pattern_def is_word_def code_def)

lemma date_patterns_weekday_func:
  "date_patterns = [today_rule, tomorrow_rule, (weekday_pattern, snd weekday_rule)]"
  by (simp add: date_patterns_def weekday_rule_def)

lemma parse_dates_today_first:
  "re_search today_pattern text \<noteq> None \<Longrightarrow>
   parse_dates now text (today_rule # rs) r =
     r\<lparr>due_date := Some now, title := strip (re_sub today_pattern text)\<rparr>"
  by (auto simp: today_rule_def)

lemma parse_dates_tomorrow_second:
  "re_search today_pattern text = None \<Longrightarrow> re_search tomorrow_pattern text \<noteq> None \<Longrightarrow>
   replace_day now (day now + 1) = Inr d \<Longrightarrow>
   parse_dates now text (today_rule # tomorrow_rule # rs) r =
     r\<lparr>due_date := Some d, title := strip (re_sub tomorrow_pattern text)\<rparr>"
  by (auto simp: today_rule_def tomorrow_rule_def)

lemma parse_dates_skip_two:
  "re_search today_pattern text = None \<Longrightarrow>
   re_search tomorrow_pattern text = None \<or> replace_day now (day now + 1) = Inl e \<Longrightarrow>
   parse_dates now text (today_rule # tomorrow_rule # rs) r = parse_dates now text rs r"
  by (auto simp: today_rule_def tomorrow_rule_def split: option.splits)

lemma parse_dates_single:
  "parse_dates now text [(p, f)] r = r \<or>
   (re_search p text \<noteq> None \<and>
    (\<exists>d. parse_dates now text [(p, f)] r = r\<lparr>due_date := Some d, title := strip (re_sub p text)\<rparr>))"
  by (auto split: option.splits sum.splits)

lemma parse_dates_any_cases:
  obtains
    (today) "re_search today_pattern text \<noteq> None"
      "parse_dates now text [today_rule, tomorrow_rule, (weekday_pattern, f)] r =
         r\<lparr>due_date := Some now, title := strip (re_sub today_pattern text)\<rparr>"
  | (tomorrow) d where "re_search today_pattern text = None"
      "re_search tomorrow_pattern text \<noteq> None" "replace_day now (day now + 1) = Inr d"
      "parse_dates now text [today_rule, tomorrow_rule, (weekday_pattern, f)] r =
         r\<lparr>due_date := Some d, title := strip (re_sub tomorrow_pattern text)\<rparr>"
  | (weekday) d where "re_search today_pattern text = None"
      "re_search tomorrow_pattern text = None \<or> (\<exists>e. replace_day now (day now + 1) = Inl e)"
      "re_search weekday_pattern text \<noteq> None"
      "parse_dates now text [today_rule, tomorrow_rule, (weekday_pattern, f)] r =
         r\<lparr>due_date := Some d, title := strip (re_sub weekday_pattern text)\<rparr>"
  | (none) "re_search today_pattern text = None"
      "re_search tomorrow_pattern text = None \<or> (\<exists>e. replace_day now (day now + 1) = Inl e)"
      "parse_dates now text [today_rule, tomorrow_rule, (weekday_pattern, f)] r = r"
proof (cases "re_search today_pattern text = None")
  case False
  then show ?thesis using parse_dates_today_first today by blast
next
  case True
  show ?thesis
  proof (cases "re_search tomorrow_pattern text \<noteq> None \<and>
                (\<exists>d. replace_day now (day now + 1) = Inr d)")
    case t: True
    then obtain d where "replace_day now (day now + 1) = Inr d" by blast
    with True t show ?thesis using parse_dates_tomorrow_second tomorrow by blast
  next
    case f: False
    then have c: "re_search tomorrow_pattern text = None \<or>
                  (\<exists>e. replace_day now (day now + 1) = Inl e)"
      by (cases "replace_day now (day now + 1)") auto
    then have s: "parse_dates now text [today_rule, tomorrow_rule, (weekday_pattern, f)] r =
                  parse_dates now text [(weekday_pattern, f)] r"
      using True parse_dates_skip_two by blast
    from parse_dates_single[of now "text" weekday_pattern f r] show ?thesis
      using True c s weekday none by metis
  qed
qed

lemma any_title_cases:
  "title (parse_dates now text [today_rule, tomorrow_rule, (weekday_pattern, f)]
            (initial_result text)) \<in>
     {strip text, strip (re_sub today_pattern text), strip (re_sub tomorrow_pattern text),
      strip (re_sub weekday_pattern text)}"
  by (rule parse_dates_any_cases[of "text" now f "initial_result text"])
     (simp_all add: initial_result_def)


lemma any_title_words:
  "set (words (title (parse_dates now text [today_rule, tomorrow_rule, (weekday_pattern, f)]
          (initial_result text)))) \<subseteq> set (words text)"
  using any_title_cases[of now "text" f] by (auto simp: words_re_sub)

lemma any_title_tags:
  "findall_tags text = [] \<Longrightarrow>
   findall_tags (title (parse_dates now text [today_rule, tomorrow_rule, (weekday_pattern, f)]
      (initial_result text))) = []"
  using any_title_cases[of now "text" f] by (auto simp: findall_tags_re_sub)

lemma set_strip_re_sub: "set (strip (re_sub p s)) \<subseteq> set s"
  using set_strip[of "re_sub p s"] set_re_sub_from[of p False s]
  by (metis re_sub_def subset_trans)

lemma any_title_set:
  "set (title (parse_dates now text [today_rule, tomorrow_rule, (weekday_pattern, f)]
      (initial_result text))) \<subseteq> set text"
  using any_title_cases[of now "text" f] set_strip[of "text"]
    set_strip_re_sub[of today_pattern "text"] set_strip_re_sub[of tomorrow_pattern "text"]
    set_strip_re_sub[of weekday_pattern "text"]
  by auto

lemma any_title_no_today:
  "re_search today_pattern
     (title (parse_dates now text [today_rule, tomorrow_rule, (weekday_pattern, f)]
        (initial_result text))) = None"
proof (cases "re_search today_pattern text = None")
  case True
  then show ?thesis
    using any_title_words[of now "text" f] by (auto simp: re_search_None_iff)
next
  case False
  then show ?thesis
    by (simp add: parse_dates_today_first re_search_after_re_sub)
qed

lemma any_title_tomorrow:
  assumes "re_search tomorrow_pattern
     (title (parse_dates now text [today_rule, tomorrow_rule, (weekday_pattern, f)]
        (initial_result text))) \<noteq> None"
    and "replace_day now (day now + 1) = Inr d"
  shows "re_search today_pattern text \<noteq> None \<and> re_search tomorrow_pattern text \<noteq> None"
proof -
  from assms(1) have tm: "re_search tomorrow_pattern text \<noteq> None"
    using any_title_words[of now "text" f] by (auto simp: re_search_None_iff)
  have "re_search today_pattern text \<noteq> None"
  proof
    assume "re_search today_pattern text = None"
    from parse_dates_tomorrow_second[OF this tm assms(2)] assms(1) show False
      by (simp add: re_search_after_re_sub)
  qed
  with tm show ?thesis by simp
qed

lemma tags_parse_with:
  "tags (parse_with rules now text) =
     (if findall_tags text = [] then None else Some (findall_tags text))"
  by (simp add: parse_with_def tags_parse_tags initial_result_def)

lemma priority_parse_with:
  "priority (parse_with rules now text) =
     (if contains ''!!!'' text then Some 3 else if contains ''!!'' text then Some 2 else None)"
  by (simp add: parse_with_def parse_priority_priority initial_result_def)

lemma due_date_parse_with:
  "due_date (parse_with rules now text) =
     due_date (parse_dates now text rules (initial_result text))"
  by (simp add: parse_with_def)

lemma title_parse_with_no_bang:
  assumes "CHR ''!'' \<notin> set text"
  shows "title (parse_with rules now text) =
     (if findall_tags text = [] then title (parse_dates now text rules (initial_result text))
      else strip (sub_tags (title (parse_dates now text rules (initial_result text)))))"
  using no_bang_no_priority[OF assms]
  by (simp add: parse_with_def title_parse_priority_eq title_parse_tags_eq)

lemma reparse_any_weekday_func:
  fixes f :: "date_func" and now :: "date" and inp :: "string"
  assumes nb: "CHR ''!'' \<notin> set inp"
  defines "R \<equiv> [today_rule, tomorrow_rule, (weekday_pattern, f)]"
  defines "t \<equiv> title (parse_with R now inp)"
  shows "tags (parse_with R now t) = None"
    and "priority (parse_with R now t) = None"
    and "re_search today_pattern t = None"
    and "re_search tomorrow_pattern t \<noteq> None \<Longrightarrow> replace_day now (day now + 1) = Inr d \<Longrightarrow>
         re_search today_pattern inp \<noteq> None \<and> re_search tomorrow_pattern inp \<noteq> None"
    and "re_search weekday_pattern t = None \<Longrightarrow> due_date (parse_with R now t) \<noteq> None \<Longrightarrow>
         re_search today_pattern inp \<noteq> None \<and> re_search tomorrow_pattern inp \<noteq> None"
proof -
  let ?t1 = "title (parse_dates now inp R (initial_result inp))"
  have t: "t = (if findall_tags inp = [] then ?t1 else strip (sub_tags ?t1))"
    unfolding t_def by (rule title_parse_with_no_bang[OF nb])
  have sub: "set (words t) \<subseteq> set (words ?t1)"
    unfolding t by (simp add: words_sub_tags)
  have ft: "findall_tags t = []"
    unfolding t R_def by (simp add: any_title_tags)
  have "set t \<subseteq> set ?t1"
    unfolding t using set_strip set_sub_tags by (auto dest!: subsetD)
  with nb have nbt: "CHR ''!'' \<notin> set t"
    using any_title_set[of now inp f] unfolding R_def by blast
  show "tags (parse_with R now t) = None" by (simp add: tags_parse_with ft)
  show "priority (parse_with R now t) = None"
    using no_bang_no_priority[OF nbt] by (simp add: priority_parse_with)
  show a: "re_search today_pattern t = None"
    using any_title_no_today[of now inp f] sub
    unfolding R_def by (auto simp: re_search_None_iff)
  show b: "re_search today_pattern inp \<noteq> None \<and> re_search tomorrow_pattern inp \<noteq> None"
    if "re_search tomorrow_pattern t \<noteq> None" "replace_day now (day now + 1) = Inr d" for d
  proof -
    from that(1) sub have "re_search tomorrow_pattern ?t1 \<noteq> None"
      by (auto simp: re_search_None_iff)
    then show ?thesis using any_title_tomorrow[of now inp f d] that(2)
      unfolding R_def by blast
  qed
  show "re_search today_pattern inp \<noteq> None \<and> re_search tomorrow_pattern inp \<noteq> None"
    if w: "re_search weekday_pattern t = None" and dd: "due_date (parse_with R now t) \<noteq> None"
  proof -
    from dd have dd': "due_date (parse_dates now t R (initial_result t)) \<noteq> None"
      by (simp add: due_date_parse_with)
    show ?thesis
    proof (rule parse_dates_any_cases[of t now f "initial_result t"])
      assume "re_search today_pattern t \<noteq> None"
      with a show ?thesis by simp
    next
      fix d
      assume "re_search tomorrow_pattern t \<noteq> None" "replace_day now (day now + 1) = Inr d"
      then show ?thesis by (rule b)
    next
      assume "re_search weekday_pattern t \<noteq> None"
      with w show ?thesis by simp
    next
      assume "parse_dates now t [today_rule, tomorrow_rule, (weekday_pattern, f)]
                (initial_result t) = initial_result t"
      with dd' show ?thesis by (simp add: R_def initial_result_def)
    qed
  qed
qed


lemma after_dates_none_title:
  assumes "due_date (after_dates now text) = None"
  shows "title (after_dates now text) = strip text"
proof -
  let ?r = "parse_dates now text [today_rule, tomorrow_rule, (weekday_pattern, snd weekday_rule)]
              (initial_result text)"
  from assms have d: "due_date ?r = None"
    by (simp only: after_dates_def date_patterns_weekday_func)
  have "title ?r = strip text"
    using d
    by - (rule parse_dates_any_cases[of "text" now "snd weekday_rule" "initial_result text"],
          simp_all add: initial_result_def)
  then show ?thesis by (simp only: after_dates_def date_patterns_weekday_func)
qed

subsection \<open>Evaluations on concrete inputs\<close>

lemma eval_today_today:
  "parse_natural_language now ''today today'' =
     \<lparr>title = [], due_date = Some now, tags = None, priority = None\<rparr>"
  by code_simp

lemma eval_today_tomorrow:
  "parse_natural_language now ''today tomorrow'' =
     \<lparr>title = ''tomorrow'', due_date = Some now, tags = None, priority = None\<rparr>"
  by code_simp

lemma eval_tomorrow:
  "parse_natural_language ref_date ''tomorrow'' =
     \<lparr>title = [], due_date = Some \<lparr>year = 2024, month = 3, day = 16\<rparr>, tags = None,
      priority = None\<rparr>"
  by code_simp

lemma eval_hash_today:
  "parse_natural_language now ''#today'' =
     \<lparr>title = ''#'', due_date = Some now, tags = Some [''today''], priority = None\<rparr>"
  by code_simp

lemma eval_next_day: "replace_day ref_date (day ref_date + 1) =
    Inr \<lparr>year = 2024, month = 3, day = 16\<rparr>"
  by code_simp

lemma eval_today_joined:
  "parse_natural_language now ''today to!!!day'' =
     \<lparr>title = ''today'', due_date = Some now, tags = None, priority = Some 3\<rparr>"
  by code_simp

lemma eval_hashtag_joined:
  "parse_natural_language now ''#x #!!!a'' =
     \<lparr>title = ''#a'', due_date = None, tags = Some [''x''], priority = Some 3\<rparr>"
  by code_simp

section \<open>The claims\<close>

text \<open>
  C1.  A weekday name resolves to the next occurrence of that weekday strictly after the
  reference date; \<open>parse("Call on monday")\<close> with reference date 2024-03-15 (a Friday)
  yields due date 2024-03-18.  The helper \<open>get_next_weekday\<close> computes that date, but the
  loop of the parser calls the lambda of the weekday rule without the match
  (\<open>callable(date_func)\<close> holds for every lambda), the call raises \<open>TypeError\<close>, the handler
  swallows it, and the result has no due date and keeps the weekday name in the title.
  This happens for every input: the weekday rule never changes the result.  The helper
  itself adds the days to the day of the month as it is, so that on Friday 2024-03-29
  it asks for day 32 and raises \<open>ValueError\<close> where the next Monday is 2024-04-01.
\<close>

theorem parse_call_on_monday:
  "parse_natural_language ref_date ''Call on monday'' =
     \<lparr>title = ''Call on monday'', due_date = None, tags = None, priority = None\<rparr> \<and>
   weekday ref_date = 4 \<and>
   get_next_weekday ref_date ''monday'' = Inr \<lparr>year = 2024, month = 3, day = 18\<rparr> \<and>
   re_search weekday_pattern ''Call on monday'' = Some ''monday'' \<and>
   get_next_weekday \<lparr>year = 2024, month = 3, day = 29\<rparr> ''monday'' = Inl ValueError \<and>
   call0 now (snd weekday_rule) = Inl TypeError \<and>
   parse_dates now text (weekday_rule # rules) r = parse_dates now text rules r"
proof -
  have "parse_natural_language ref_date ''Call on monday'' =
     \<lparr>title = ''Call on monday'', due_date = None, tags = None, priority = None\<rparr> \<and>
   weekday ref_date = 4 \<and>
   get_next_weekday ref_date ''monday'' = Inr \<lparr>year = 2024, month = 3, day = 18\<rparr> \<and>
   re_search weekday_pattern ''Call on monday'' = Some ''monday'' \<and>
   get_next_weekday \<lparr>year = 2024, month = 3, day = 29\<rparr> ''monday'' = Inl ValueError"
    by code_simp
  moreover have "call0 now (snd weekday_rule) = Inl TypeError"
    by (simp add: weekday_rule_def)
  ultimately show ?thesis by simp
qed

text \<open>
  C2.  For every input string and every reference date the parser returns (it is a total
  function, and the only operations that can raise, the date computations, return their
  error as a value that the loop consumes), and the title of the result has no leading
  and no trailing whitespace.
\<close>

theorem parse_total_trimmed:
  "strip (title (parse_natural_language now text)) = title (parse_natural_language now text) \<and>
   (title (parse_natural_language now text) \<noteq> [] \<longrightarrow>
      \<not> is_space (hd (title (parse_natural_language now text))) \<and>
      \<not> is_space (last (title (parse_natural_language now text))))"
proof -
  have t: "strip (title (parse_natural_language now text)) = title (parse_natural_language now text)"
    using title_parse_with[of date_patterns now "text"]
    by (simp add: parse_natural_language_def trimmed_def)
  with strip_ends[of "title (parse_natural_language now text)"] show ?thesis by simp
qed

theorem parse_total_trimmed_witness:
  "title (parse_natural_language ref_date '' Pay rent !! '') = ''Pay rent'' \<and>
   \<not> is_space (hd (title (parse_natural_language ref_date '' Pay rent !! ''))) \<and>
   \<not> is_space (last (title (parse_natural_language ref_date '' Pay rent !! '')))"
proof -
  have e: "title (parse_natural_language ref_date '' Pay rent !! '') = ''Pay rent''"
    by code_simp
  from parse_total_trimmed[of ref_date "'' Pay rent !! ''"] e show ?thesis
    by simp
qed

text \<open>
  C3 (as stated).  The title holds no marker of a field that was extracted; if a priority
  was extracted, the title holds no \<open>!!\<close>.  The input \<open>Ship it !!!!!\<close> has priority 3
  and the title \<open>Ship it !!\<close>.
\<close>

theorem priority_extracted_marker_left:
  "parse_natural_language ref_date ''Ship it !!!!!'' =
     \<lparr>title = ''Ship it !!'', due_date = None, tags = None, priority = Some 3\<rparr> \<and>
   contains ''!!'' ''Ship it !!''"
  by code_simp

text \<open>
  C3 (amended).  Every stage leaves no marker of its own field in the title it produces:
  after the date stage there is no whole-word occurrence of the phrase of the rule that
  set the due date; when tags were extracted, the title after the tag stage holds no
  hashtag; when priority 3 was extracted the final title holds no \<open>!!!\<close>, and when
  priority 2 was extracted it holds no \<open>!!\<close>.  A stage that extracts nothing leaves the
  title of the stage before it.  When the input holds no exclamation mark, the final
  title holds no hashtag and no whole-word occurrence of the extracted date phrase
  either.  With exclamation marks, the priority stage can join characters into a marker
  of an earlier stage: \<open>#x #!!!a\<close> gives the tags \<open>[x]\<close> and the title \<open>#a\<close>, and
  \<open>today to!!!day\<close> gives a due date and the title \<open>today\<close>.
\<close>

theorem stage_leaves_no_own_marker:
  "(re_search today_pattern text \<noteq> None \<longrightarrow>
      re_search today_pattern (title (after_dates now text)) = None \<and>
      (CHR ''!'' \<notin> set text \<longrightarrow>
         re_search today_pattern (title (parse_natural_language now text)) = None)) \<and>
   (re_search today_pattern text = None \<and> re_search tomorrow_pattern text \<noteq> None \<and>
    replace_day now (day now + 1) = Inr d \<longrightarrow>
      re_search tomorrow_pattern (title (after_dates now text)) = None \<and>
      (CHR ''!'' \<notin> set text \<longrightarrow>
         re_search tomorrow_pattern (title (parse_natural_language now text)) = None)) \<and>
   (tags (parse_natural_language now text) \<noteq> None \<longrightarrow>
      findall_tags (title (after_tags now text)) = [] \<and>
      (CHR ''!'' \<notin> set text \<longrightarrow> findall_tags (title (parse_natural_language now text)) = [])) \<and>
   (priority (parse_natural_language now text) = Some 3 \<longrightarrow>
      \<not> contains ''!!!'' (title (parse_natural_language now text))) \<and>
   (priority (parse_natural_language now text) = Some 2 \<longrightarrow>
      \<not> contains ''!!'' (title (parse_natural_language now text))) \<and>
   (due_date (parse_natural_language now text) = None \<longrightarrow>
      title (after_dates now text) = strip text) \<and>
   (tags (parse_natural_language now text) = None \<longrightarrow>
      title (after_tags now text) = title (after_dates now text)) \<and>
   (priority (parse_natural_language now text) = None \<longrightarrow>
      title (parse_natural_language now text) = title (after_tags now text)) \<and>
   parse_natural_language now ''#x #!!!a'' =
     \<lparr>title = ''#a'', due_date = None, tags = Some [''x''], priority = Some 3\<rparr> \<and>
   parse_natural_language now ''today to!!!day'' =
     \<lparr>title = ''today'', due_date = Some now, tags = None, priority = Some 3\<rparr>"
proof -
  note p3 = title_no_bang3[of now "text"]
  note p2 = title_no_bang2[of now "text"]
  note p0 = title_no_priority[of now "text"]
  have t0: "tags (parse_natural_language now text) = None \<Longrightarrow>
      title (after_tags now text) = title (after_dates now text)"
    by (auto simp: tags_parse after_tags_title split: if_splits)
  have d1: "re_search today_pattern (title (after_dates now text)) = None \<and>
      (CHR ''!'' \<notin> set text \<longrightarrow>
         re_search today_pattern (title (parse_natural_language now text)) = None)"
    if "re_search today_pattern text \<noteq> None"
    using after_dates_no_today[OF that, of now] after_tags_no_hit[of today_pattern now "text"]
    by (simp add: title_no_bang)
  have d2: "re_search tomorrow_pattern (title (after_dates now text)) = None \<and>
      (CHR ''!'' \<notin> set text \<longrightarrow>
         re_search tomorrow_pattern (title (parse_natural_language now text)) = None)"
    if "re_search today_pattern text = None" "re_search tomorrow_pattern text \<noteq> None"
      "replace_day now (day now + 1) = Inr d"
    using after_dates_no_tomorrow[OF that] after_tags_no_hit[of tomorrow_pattern now "text"]
    by (simp add: title_no_bang)
  have g: "findall_tags (title (after_tags now text)) = [] \<and>
      (CHR ''!'' \<notin> set text \<longrightarrow> findall_tags (title (parse_natural_language now text)) = [])"
    by (simp add: title_no_bang)
  have d0: "due_date (parse_natural_language now text) = None \<Longrightarrow>
      title (after_dates now text) = strip text"
    by (simp add: due_date_parse after_dates_none_title)
  from p3 p2 p0 t0 d0 d1 d2 g eval_hashtag_joined[of now] eval_today_joined[of now]
  show ?thesis by blast
qed

theorem stage_leaves_no_own_marker_witness:
  "re_search today_pattern ''Call Bob today'' \<noteq> None \<and>
   CHR ''!'' \<notin> set ''Call Bob today'' \<and>
   re_search today_pattern (title (after_dates ref_date ''Call Bob today'')) = None \<and>
   re_search today_pattern (title (parse_natural_language ref_date ''Call Bob today'')) = None \<and>
   re_search today_pattern ''Call Bob tomorrow'' = None \<and>
   re_search tomorrow_pattern ''Call Bob tomorrow'' \<noteq> None \<and>
   CHR ''!'' \<notin> set ''Call Bob tomorrow'' \<and>
   replace_day ref_date (day ref_date + 1) = Inr \<lparr>year = 2024, month = 3, day = 16\<rparr> \<and>
   re_search tomorrow_pattern (title (after_dates ref_date ''Call Bob tomorrow'')) = None \<and>
   re_search tomorrow_pattern (title (parse_natural_language ref_date ''Call Bob tomorrow'')) =
     None \<and>
   tags (parse_natural_language ref_date ''Buy milk #shop'') \<noteq> None \<and>
   CHR ''!'' \<notin> set ''Buy milk #shop'' \<and>
   findall_tags (title (after_tags ref_date ''Buy milk #shop'')) = [] \<and>
   findall_tags (title (parse_natural_language ref_date ''Buy milk #shop'')) = [] \<and>
   priority (parse_natural_language ref_date ''Urgent !!!'') = Some 3 \<and>
   \<not> contains ''!!!'' (title (parse_natural_language ref_date ''Urgent !!!'')) \<and>
   priority (parse_natural_language ref_date ''Important meeting !!'') = Some 2 \<and>
   \<not> contains ''!!'' (title (parse_natural_language ref_date ''Important meeting !!'')) \<and>
   due_date (parse_natural_language ref_date ''Buy groceries'') = None \<and>
   title (after_dates ref_date ''Buy groceries'') = strip ''Buy groceries'' \<and>
   tags (parse_natural_language ref_date ''Buy groceries'') = None \<and>
   title (after_tags ref_date ''Buy groceries'') = title (after_dates ref_date ''Buy groceries'') \<and>
   priority (parse_natural_language ref_date ''Buy groceries'') = None \<and>
   title (parse_natural_language ref_date ''Buy groceries'') =
     title (after_tags ref_date ''Buy groceries'')"
proof -
  have h1: "re_search today_pattern ''Call Bob today'' \<noteq> None" by code_simp
  have n1: "CHR ''!'' \<notin> set ''Call Bob today''" by simp
  have h2: "re_search today_pattern ''Call Bob tomorrow'' = None \<and>
            re_search tomorrow_pattern ''Call Bob tomorrow'' \<noteq> None"
    by code_simp
  have n2: "CHR ''!'' \<notin> set ''Call Bob tomorrow''" by simp
  note d2 = eval_next_day
  have "findall_tags ''Buy milk #shop'' \<noteq> []" by code_simp
  then have h3: "tags (parse_natural_language ref_date ''Buy milk #shop'') \<noteq> None"
    by (simp only: tags_parse if_False option.distinct simp_thms)
  have n3: "CHR ''!'' \<notin> set ''Buy milk #shop''" by simp
  have "contains ''!!!'' ''Urgent !!!''" by code_simp
  then have h4: "priority (parse_natural_language ref_date ''Urgent !!!'') = Some 3"
    by (simp only: priority_parse if_True)
  have "\<not> contains ''!!!'' ''Important meeting !!'' \<and> contains ''!!'' ''Important meeting !!''"
    by code_simp
  then have h5: "priority (parse_natural_language ref_date ''Important meeting !!'') = Some 2"
    by (simp only: priority_parse if_True if_False)
  have "findall_tags ''Buy groceries'' = [] \<and> \<not> contains ''!!!'' ''Buy groceries'' \<and>
        \<not> contains ''!!'' ''Buy groceries''"
    by code_simp
  then have h6: "tags (parse_natural_language ref_date ''Buy groceries'') = None \<and>
            priority (parse_natural_language ref_date ''Buy groceries'') = None"
    by (simp only: tags_parse priority_parse if_True if_False simp_thms)
  have c1: "re_search today_pattern (title (after_dates ref_date ''Call Bob today'')) = None \<and>
     re_search today_pattern (title (parse_natural_language ref_date ''Call Bob today'')) = None"
    using h1 n1 stage_leaves_no_own_marker[of "''Call Bob today''" ref_date] by blast
  have c2: "re_search tomorrow_pattern (title (after_dates ref_date ''Call Bob tomorrow'')) = None \<and>
     re_search tomorrow_pattern (title (parse_natural_language ref_date ''Call Bob tomorrow'')) =
       None"
    using h2 n2 d2 stage_leaves_no_own_marker[of "''Call Bob tomorrow''" ref_date
      "\<lparr>year = 2024, month = 3, day = 16\<rparr>"] by blast
  have c3: "findall_tags (title (after_tags ref_date ''Buy milk #shop'')) = [] \<and>
     findall_tags (title (parse_natural_language ref_date ''Buy milk #shop'')) = []"
    using h3 n3 stage_leaves_no_own_marker[of "''Buy milk #shop''" ref_date] by blast
  have c4: "\<not> contains ''!!!'' (title (parse_natural_language ref_date ''Urgent !!!''))"
    using h4 stage_leaves_no_own_marker[of "''Urgent !!!''" ref_date] by blast
  have c5: "\<not> contains ''!!'' (title (parse_natural_language ref_date ''Important meeting !!''))"
    using h5 stage_leaves_no_own_marker[of "''Important meeting !!''" ref_date] by blast
  have h7: "due_date (parse_natural_language ref_date ''Buy groceries'') = None"
    by code_simp
  have c7: "title (after_dates ref_date ''Buy groceries'') = strip ''Buy groceries''"
    using h7 stage_leaves_no_own_marker[of "''Buy groceries''" ref_date] by blast
  have c6: "title (after_tags ref_date ''Buy groceries'') = title (after_dates ref_date ''Buy groceries'') \<and>
     title (parse_natural_language ref_date ''Buy groceries'') =
       title (after_tags ref_date ''Buy groceries'')"
    using h6 stage_leaves_no_own_marker[of "''Buy groceries''" ref_date] by blast
  from h1 n1 h2 n2 d2 h3 n3 h4 h5 h6 h7 c1 c2 c3 c4 c5 c6 c7 show ?thesis by blast
qed

text \<open>
  C4 (as stated).  Parsing the title again extracts no further field; after an input
  whose result had a priority, parsing the resulting title yields no priority.  The
  input \<open>Fix !!!!!\<close> has priority 3 and the title \<open>Fix !!\<close>, and parsing that title
  yields priority 2.
\<close>

theorem reparse_extracts_priority:
  "priority (parse_natural_language ref_date ''Fix !!!!!'') = Some 3 \<and>
   title (parse_natural_language ref_date ''Fix !!!!!'') = ''Fix !!'' \<and>
   priority (parse_natural_language ref_date
     (title (parse_natural_language ref_date ''Fix !!!!!''))) = Some 2"
proof -
  have e1: "parse_natural_language ref_date ''Fix !!!!!'' =
     \<lparr>title = ''Fix !!'', due_date = None, tags = None, priority = Some 3\<rparr>"
    by code_simp
  have e2: "parse_natural_language ref_date ''Fix !!'' =
     \<lparr>title = ''Fix'', due_date = None, tags = None, priority = Some 2\<rparr>"
    by code_simp
  show ?thesis by (simp add: e1 e2)
qed

text \<open>
  C4 (amended).  For every input without an exclamation mark, parsing the title again
  (same reference date) extracts no tags and no priority; the title holds no whole-word
  \<open>today\<close>, and it holds a whole-word \<open>tomorrow\<close> whose date can be computed only when
  the input held both \<open>today\<close> and \<open>tomorrow\<close> as whole words (the first parse took
  \<open>today\<close> and left \<open>tomorrow\<close>); so, when the title holds no weekday name, the second
  parse sets a due date only in that case.  Nothing is said of a title that holds a
  weekday name.  For every input, when the first result has priority 2 the second has
  none, and when the first has priority 3 the second does not have priority 3.  Parsing
  the title of \<open>today tomorrow\<close> again extracts the next day.  The statements on dates
  hold whatever the date function of the weekday rule returns
  (\<open>reparse_any_weekday_func\<close>).
\<close>

theorem reparse_title:
  "(CHR ''!'' \<notin> set text \<longrightarrow>
      tags (parse_natural_language now (title (parse_natural_language now text))) = None \<and>
      priority (parse_natural_language now (title (parse_natural_language now text))) = None \<and>
      re_search today_pattern (title (parse_natural_language now text)) = None \<and>
      (re_search tomorrow_pattern (title (parse_natural_language now text)) \<noteq> None \<and>
       replace_day now (day now + 1) = Inr d \<longrightarrow>
         re_search today_pattern text \<noteq> None \<and> re_search tomorrow_pattern text \<noteq> None) \<and>
      (re_search weekday_pattern (title (parse_natural_language now text)) = None \<and>
       due_date (parse_natural_language now (title (parse_natural_language now text))) \<noteq> None
         \<longrightarrow> re_search today_pattern text \<noteq> None \<and>
             re_search tomorrow_pattern text \<noteq> None)) \<and>
   (priority (parse_natural_language now text) = Some 2 \<longrightarrow>
      priority (parse_natural_language now (title (parse_natural_language now text))) = None) \<and>
   (priority (parse_natural_language now text) = Some 3 \<longrightarrow>
      priority (parse_natural_language now (title (parse_natural_language now text))) \<noteq> Some 3) \<and>
   parse_natural_language ref_date (title (parse_natural_language ref_date ''today tomorrow'')) =
     \<lparr>title = [], due_date = Some \<lparr>year = 2024, month = 3, day = 16\<rparr>, tags = None,
      priority = None\<rparr>"
proof -
  let ?t = "title (parse_natural_language now text)"
  have p: "parse_natural_language now s =
           parse_with [today_rule, tomorrow_rule, (weekday_pattern, snd weekday_rule)] now s" for s
    by (simp only: parse_natural_language_def date_patterns_weekday_func)
  note g = reparse_any_weekday_func[of "text" "snd weekday_rule" now, folded p]
  have a: "tags (parse_natural_language now ?t) = None \<and>
      priority (parse_natural_language now ?t) = None \<and>
      re_search today_pattern ?t = None \<and>
      (re_search tomorrow_pattern ?t \<noteq> None \<and> replace_day now (day now + 1) = Inr d \<longrightarrow>
         re_search today_pattern text \<noteq> None \<and> re_search tomorrow_pattern text \<noteq> None) \<and>
      (re_search weekday_pattern ?t = None \<and> due_date (parse_natural_language now ?t) \<noteq> None
         \<longrightarrow> re_search today_pattern text \<noteq> None \<and>
             re_search tomorrow_pattern text \<noteq> None)"
    if nb: "CHR ''!'' \<notin> set text"
    using g(1)[OF nb] g(2)[OF nb] g(3)[OF nb] g(4)[OF nb, of d] g(5)[OF nb] by blast
  have b: "priority (parse_natural_language now ?t) = None"
    if "priority (parse_natural_language now text) = Some 2"
  proof -
    from title_no_bang2[OF that] have "\<not> contains ''!!'' ?t" .
    moreover then have "\<not> contains ''!!!'' ?t" using contains_bang3_bang2 by blast
    ultimately show ?thesis by (simp add: priority_parse)
  qed
  have c: "priority (parse_natural_language now ?t) \<noteq> Some 3"
    if "priority (parse_natural_language now text) = Some 3"
    using title_no_bang3[OF that] by (simp add: priority_parse)
  have e: "parse_natural_language ref_date (title (parse_natural_language ref_date ''today tomorrow'')) =
     \<lparr>title = [], due_date = Some \<lparr>year = 2024, month = 3, day = 16\<rparr>, tags = None,
      priority = None\<rparr>"
    by (simp add: eval_today_tomorrow eval_tomorrow)
  from a b c e show ?thesis by blast
qed

theorem reparse_title_witness:
  "CHR ''!'' \<notin> set ''today tomorrow'' \<and>
   title (parse_natural_language ref_date ''today tomorrow'') = ''tomorrow'' \<and>
   tags (parse_natural_language ref_date
     (title (parse_natural_language ref_date ''today tomorrow''))) = None \<and>
   priority (parse_natural_language ref_date
     (title (parse_natural_language ref_date ''today tomorrow''))) = None \<and>
   re_search today_pattern (title (parse_natural_language ref_date ''today tomorrow'')) = None \<and>
   re_search tomorrow_pattern (title (parse_natural_language ref_date ''today tomorrow'')) \<noteq>
     None \<and>
   replace_day ref_date (day ref_date + 1) = Inr \<lparr>year = 2024, month = 3, day = 16\<rparr> \<and>
   re_search weekday_pattern (title (parse_natural_language ref_date ''today tomorrow'')) =
     None \<and>
   due_date (parse_natural_language ref_date
     (title (parse_natural_language ref_date ''today tomorrow''))) \<noteq> None \<and>
   re_search today_pattern ''today tomorrow'' \<noteq> None \<and>
   re_search tomorrow_pattern ''today tomorrow'' \<noteq> None \<and>
   priority (parse_natural_language ref_date ''Important meeting !!'') = Some 2 \<and>
   priority (parse_natural_language ref_date
     (title (parse_natural_language ref_date ''Important meeting !!''))) = None \<and>
   priority (parse_natural_language ref_date ''Fix !!!!!'') = Some 3 \<and>
   priority (parse_natural_language ref_date
     (title (parse_natural_language ref_date ''Fix !!!!!''))) \<noteq> Some 3"
proof -
  note t = reparse_title[of "''today tomorrow''" ref_date
    "\<lparr>year = 2024, month = 3, day = 16\<rparr>"]
  have h1: "CHR ''!'' \<notin> set ''today tomorrow''" by simp
  have ti: "title (parse_natural_language ref_date ''today tomorrow'') = ''tomorrow''"
    by (simp add: eval_today_tomorrow)
  have "re_search tomorrow_pattern ''tomorrow'' \<noteq> None \<and>
        re_search weekday_pattern ''tomorrow'' = None"
    by code_simp
  then have h2: "re_search tomorrow_pattern
        (title (parse_natural_language ref_date ''today tomorrow'')) \<noteq> None \<and>
      re_search weekday_pattern
        (title (parse_natural_language ref_date ''today tomorrow'')) = None"
    unfolding ti .
  note h3 = eval_next_day
  have h4: "due_date (parse_natural_language ref_date
     (title (parse_natural_language ref_date ''today tomorrow''))) \<noteq> None"
    using t by simp
  have "\<not> contains ''!!!'' ''Important meeting !!'' \<and> contains ''!!'' ''Important meeting !!''"
    by code_simp
  then have h5: "priority (parse_natural_language ref_date ''Important meeting !!'') = Some 2"
    by (simp only: priority_parse if_True if_False)
  have "contains ''!!!'' ''Fix !!!!!''" by code_simp
  then have h6: "priority (parse_natural_language ref_date ''Fix !!!!!'') = Some 3"
    by (simp only: priority_parse if_True)
  have c1: "tags (parse_natural_language ref_date
       (title (parse_natural_language ref_date ''today tomorrow''))) = None \<and>
     priority (parse_natural_language ref_date
       (title (parse_natural_language ref_date ''today tomorrow''))) = None \<and>
     re_search today_pattern (title (parse_natural_language ref_date ''today tomorrow'')) = None \<and>
     re_search today_pattern ''today tomorrow'' \<noteq> None \<and>
     re_search tomorrow_pattern ''today tomorrow'' \<noteq> None"
    using h1 h2 h3 h4 t by blast
  have c2: "priority (parse_natural_language ref_date
     (title (parse_natural_language ref_date ''Important meeting !!''))) = None"
    using h5 reparse_title[of "''Important meeting !!''" ref_date] by blast
  have c3: "priority (parse_natural_language ref_date
     (title (parse_natural_language ref_date ''Fix !!!!!''))) \<noteq> Some 3"
    using h6 reparse_title[of "''Fix !!!!!''" ref_date] by blast
  from h1 ti h2 h3 h4 h5 h6 c1 c2 c3 show ?thesis by blast
qed

text \<open>
  C5 (as stated).  Only the matched phrase is removed, and a repeated occurrence of the
  same phrase, such as the second \<open>today\<close> in \<open>today today\<close>, is left in the title.  The
  parser removes both: the title of \<open>today today\<close> is empty.
\<close>

theorem repeated_today_removed:
  "parse_natural_language ref_date ''today today'' =
     \<lparr>title = [], due_date = Some ref_date, tags = None, priority = None\<rparr>"
  by (rule eval_today_today)

text \<open>
  C5 (amended).  At most one due date is set, by the first rule in the order \<open>today\<close>,
  \<open>tomorrow\<close> whose phrase occurs as a whole word and whose date can be computed.  When
  \<open>today\<close> occurs, the due date is the reference date and the date stage removes every
  whole-word occurrence of \<open>today\<close>, in any case, and nothing else: the separators and
  all other words, those of the other date rules included, stay in place.  When \<open>today\<close>
  does not occur, \<open>tomorrow\<close> does and the next day exists in the month, the due
  date is the next day and the same holds for \<open>tomorrow\<close>.  So \<open>today today\<close> has an empty
  title and \<open>today tomorrow\<close> has the title \<open>tomorrow\<close>.
\<close>

theorem date_stage_first_rule_wins:
  "due_date (parse_natural_language now text) =
     due_date (after_dates now text) \<and>
   (re_search today_pattern text \<noteq> None \<longrightarrow>
      due_date (after_dates now text) = Some now \<and>
      title (after_dates now text) =
        strip (re_sub today_pattern text) \<and>
      toks (re_sub today_pattern text) =
        (erase today_pattern (fst (toks text)),
         map (\<lambda>(x, u). (x, erase today_pattern u)) (snd (toks text))) \<and>
      words (title (after_dates now text)) =
        filter (\<lambda>w. lower w \<noteq> ''today'') (words text)) \<and>
   (re_search today_pattern text = None \<and> re_search tomorrow_pattern text \<noteq> None \<and>
    replace_day now (day now + 1) = Inr d \<longrightarrow>
      due_date (after_dates now text) = Some d \<and>
      title (after_dates now text) =
        strip (re_sub tomorrow_pattern text) \<and>
      toks (re_sub tomorrow_pattern text) =
        (erase tomorrow_pattern (fst (toks text)),
         map (\<lambda>(x, u). (x, erase tomorrow_pattern u)) (snd (toks text))) \<and>
      words (title (after_dates now text)) =
        filter (\<lambda>w. lower w \<noteq> ''tomorrow'') (words text)) \<and>
   parse_natural_language now ''today today'' =
     \<lparr>title = [], due_date = Some now, tags = None, priority = None\<rparr> \<and>
   parse_natural_language now ''today tomorrow'' =
     \<lparr>title = ''tomorrow'', due_date = Some now, tags = None, priority = None\<rparr>"
proof -
  let ?r1 = "after_dates now text"
  have a: "due_date (parse_natural_language now text) = due_date ?r1"
    by (rule due_date_parse)
  have b: "due_date ?r1 = Some now \<and> title ?r1 = strip (re_sub today_pattern text) \<and>
      toks (re_sub today_pattern text) =
        (erase today_pattern (fst (toks text)),
         map (\<lambda>(x, u). (x, erase today_pattern u)) (snd (toks text))) \<and>
      words (title ?r1) = filter (\<lambda>w. lower w \<noteq> ''today'') (words text)"
    if "re_search today_pattern text \<noteq> None"
    using that
    by (simp add: after_dates_def parse_dates_today words_re_sub hit_today toks_re_sub)
  have c: "due_date ?r1 = Some d \<and> title ?r1 = strip (re_sub tomorrow_pattern text) \<and>
      toks (re_sub tomorrow_pattern text) =
        (erase tomorrow_pattern (fst (toks text)),
         map (\<lambda>(x, u). (x, erase tomorrow_pattern u)) (snd (toks text))) \<and>
      words (title ?r1) = filter (\<lambda>w. lower w \<noteq> ''tomorrow'') (words text)"
    if "re_search today_pattern text = None" "re_search tomorrow_pattern text \<noteq> None"
      "replace_day now (day now + 1) = Inr d"
    using that
    by (simp add: after_dates_def parse_dates_tomorrow words_re_sub hit_tomorrow toks_re_sub)
  note e1 = eval_today_today
  note e2 = eval_today_tomorrow
  from a b c e1 e2 show ?thesis by blast
qed

theorem date_stage_first_rule_wins_witness:
  "re_search today_pattern ''Call today or tomorrow, TODAY'' \<noteq> None \<and>
   due_date (after_dates ref_date ''Call today or tomorrow, TODAY'') = Some ref_date \<and>
   words (title (after_dates ref_date ''Call today or tomorrow, TODAY'')) =
     filter (\<lambda>w. lower w \<noteq> ''today'') (words ''Call today or tomorrow, TODAY'') \<and>
   filter (\<lambda>w. lower w \<noteq> ''today'') (words ''Call today or tomorrow, TODAY'') =
     [''Call'', ''or'', ''tomorrow''] \<and>
   re_search today_pattern ''Tomorrow: rent (tomorrow)'' = None \<and>
   re_search tomorrow_pattern ''Tomorrow: rent (tomorrow)'' \<noteq> None \<and>
   replace_day ref_date (day ref_date + 1) = Inr \<lparr>year = 2024, month = 3, day = 16\<rparr> \<and>
   due_date (after_dates ref_date ''Tomorrow: rent (tomorrow)'') =
     Some \<lparr>year = 2024, month = 3, day = 16\<rparr> \<and>
   words (title (after_dates ref_date ''Tomorrow: rent (tomorrow)'')) =
     filter (\<lambda>w. lower w \<noteq> ''tomorrow'') (words ''Tomorrow: rent (tomorrow)'')"
proof -
  have h1: "re_search today_pattern ''Call today or tomorrow, TODAY'' \<noteq> None"
    by code_simp
  have h2: "re_search today_pattern ''Tomorrow: rent (tomorrow)'' = None \<and>
            re_search tomorrow_pattern ''Tomorrow: rent (tomorrow)'' \<noteq> None"
    by code_simp
  note h3 = eval_next_day
  have e: "filter (\<lambda>w. lower w \<noteq> ''today'') (words ''Call today or tomorrow, TODAY'') =
     [''Call'', ''or'', ''tomorrow'']"
    by code_simp
  have c1: "due_date (after_dates ref_date ''Call today or tomorrow, TODAY'') = Some ref_date \<and>
     words (title (after_dates ref_date ''Call today or tomorrow, TODAY'')) =
       filter (\<lambda>w. lower w \<noteq> ''today'') (words ''Call today or tomorrow, TODAY'')"
    using h1 date_stage_first_rule_wins[of ref_date "''Call today or tomorrow, TODAY''"]
    by blast
  have c2: "due_date (after_dates ref_date ''Tomorrow: rent (tomorrow)'') =
       Some \<lparr>year = 2024, month = 3, day = 16\<rparr> \<and>
     words (title (after_dates ref_date ''Tomorrow: rent (tomorrow)'')) =
       filter (\<lambda>w. lower w \<noteq> ''tomorrow'') (words ''Tomorrow: rent (tomorrow)'')"
    using h2 h3 date_stage_first_rule_wins[of ref_date "''Tomorrow: rent (tomorrow)''"
      "\<lparr>year = 2024, month = 3, day = 16\<rparr>"]
    by blast
  from h1 h2 h3 e c1 c2 show ?thesis by blast
qed

text \<open>
  C6 (as stated).  Tag extraction detects hashtags in the text as it stands after date
  extraction, so the word inside \<open>#today\<close>, consumed by the date stage, is not also
  extracted as a tag.  The parser extracts it: the title after the date stage is \<open>#\<close>,
  which holds no hashtag, and the result has the tag \<open>today\<close>.
\<close>

theorem consumed_word_extracted_as_tag:
  "parse_natural_language ref_date ''#today'' =
     \<lparr>title = ''#'', due_date = Some ref_date, tags = Some [''today''], priority = None\<rparr> \<and>
   title (after_dates ref_date ''#today'') = ''#'' \<and>
   findall_tags ''#'' = []"
proof -
  have "title (after_dates ref_date ''#today'') = ''#'' \<and> findall_tags ''#'' = []"
    by code_simp
  with eval_hash_today[of ref_date] show ?thesis by simp
qed

text \<open>
  C6 (amended).  The three stages run in the order dates, tags, priority, and each
  removes its markers from the title left by the stage before it; but each stage detects
  its markers in the original input: whatever the date rules are and do, the tags are
  the hashtags of the input and the priority is decided by the input.  So for \<open>#today\<close>
  the date phrase is stripped and \<open>today\<close> is extracted as a tag as well.
\<close>

theorem stages_detect_on_input:
  "tags (parse_with rules now text) =
     (if findall_tags text = [] then None else Some (findall_tags text)) \<and>
   priority (parse_with rules now text) =
     (if contains ''!!!'' text then Some 3 else if contains ''!!'' text then Some 2 else None) \<and>
   title (after_tags now text) =
     (if findall_tags text = [] then title (after_dates now text)
      else strip (sub_tags (title (after_dates now text)))) \<and>
   title (parse_natural_language now text) =
     (if contains ''!!!'' text then strip (str_remove ''!!!'' (title (after_tags now text)))
      else if contains ''!!'' text then strip (str_remove ''!!'' (title (after_tags now text)))
      else title (after_tags now text)) \<and>
   parse_natural_language now ''#today'' =
     \<lparr>title = ''#'', due_date = Some now, tags = Some [''today''], priority = None\<rparr>"
proof -
  have a: "tags (parse_with rules now text) =
     (if findall_tags text = [] then None else Some (findall_tags text))"
    by (simp add: parse_with_def tags_parse_tags initial_result_def)
  have b: "priority (parse_with rules now text) =
     (if contains ''!!!'' text then Some 3 else if contains ''!!'' text then Some 2 else None)"
    by (simp add: parse_with_def parse_priority_priority initial_result_def)
  have c: "title (parse_natural_language now text) =
     (if contains ''!!!'' text then strip (str_remove ''!!!'' (title (after_tags now text)))
      else if contains ''!!'' text then strip (str_remove ''!!'' (title (after_tags now text)))
      else title (after_tags now text))"
    by (simp add: parse_stages title_parse_priority_eq)
  note e = eval_hash_today
  from a b c e after_tags_title[of now "text"] show ?thesis by simp
qed

text \<open>
  C7.  If \<open>!!!\<close> occurs anywhere in the input the priority is 3 and the title holds no
  \<open>!!!\<close> any more; otherwise, if \<open>!!\<close> occurs, the priority is 2 and the title holds no
  \<open>!!\<close> any more; otherwise the priority is absent.  So a priority that is present is 2
  or 3, and \<open>parse("Urgent !!!")\<close> has title \<open>Urgent\<close> and priority 3.
\<close>

theorem priority_markers:
  "(contains ''!!!'' text \<longrightarrow>
      priority (parse_natural_language now text) = Some 3 \<and>
      \<not> contains ''!!!'' (title (parse_natural_language now text))) \<and>
   (\<not> contains ''!!!'' text \<and> contains ''!!'' text \<longrightarrow>
      priority (parse_natural_language now text) = Some 2 \<and>
      \<not> contains ''!!'' (title (parse_natural_language now text))) \<and>
   (\<not> contains ''!!'' text \<longrightarrow> priority (parse_natural_language now text) = None) \<and>
   priority (parse_natural_language now text) \<in> {None, Some 2, Some 3} \<and>
   parse_natural_language now ''Urgent !!!'' =
     \<lparr>title = ''Urgent'', due_date = None, tags = None, priority = Some 3\<rparr>"
proof -
  let ?r = "parse_tags text (parse_dates now text date_patterns (initial_result text))"
  have p: "parse_natural_language now text = parse_priority text ?r"
    by (simp add: parse_natural_language_def parse_with_def)
  have a: "contains ''!!!'' text \<Longrightarrow> \<not> contains ''!!!'' (title (parse_natural_language now text))"
    unfolding p by (simp add: parse_priority_def no_bang3_after_remove)
  have b: "\<not> contains ''!!!'' text \<Longrightarrow> contains ''!!'' text \<Longrightarrow>
     \<not> contains ''!!'' (title (parse_natural_language now text))"
    unfolding p by (simp add: parse_priority_def no_bang2_after_remove)
  have c: "priority (parse_natural_language now text) =
     (if contains ''!!!'' text then Some 3 else if contains ''!!'' text then Some 2 else None)"
    unfolding p by (simp add: parse_priority_priority initial_result_def)
  have e: "parse_natural_language now ''Urgent !!!'' =
     \<lparr>title = ''Urgent'', due_date = None, tags = None, priority = Some 3\<rparr>"
    by code_simp
  from a b c e contains_bang3_bang2[of "text"] show ?thesis by auto
qed

theorem priority_markers_witness:
  "contains ''!!!'' ''Ship it !!!!!'' \<and>
   priority (parse_natural_language ref_date ''Ship it !!!!!'') = Some 3 \<and>
   \<not> contains ''!!!'' (title (parse_natural_language ref_date ''Ship it !!!!!'')) \<and>
   \<not> contains ''!!!'' ''Important meeting !!'' \<and> contains ''!!'' ''Important meeting !!'' \<and>
   priority (parse_natural_language ref_date ''Important meeting !!'') = Some 2 \<and>
   \<not> contains ''!!'' (title (parse_natural_language ref_date ''Important meeting !!'')) \<and>
   \<not> contains ''!!'' ''Buy groceries!'' \<and>
   priority (parse_natural_language ref_date ''Buy groceries!'') = None"
proof -
  have h1: "contains ''!!!'' ''Ship it !!!!!''" by code_simp
  have h2: "\<not> contains ''!!!'' ''Important meeting !!'' \<and> contains ''!!'' ''Important meeting !!''"
    by code_simp
  have h3: "\<not> contains ''!!'' ''Buy groceries!''" by code_simp
  from h1 h2 h3
    priority_markers[of "''Ship it !!!!!''" ref_date]
    priority_markers[of "''Important meeting !!''" ref_date]
    priority_markers[of "''Buy groceries!''" ref_date]
  show ?thesis by blast
qed

text \<open>
  C8.  Tag extraction is exhaustive.  \<open>findall_tags\<close> returns the hashtags of the input as
  the specification words them (every hash sign followed by a word character, from left
  to right, with the longest run of word characters after it, case and duplicates kept),
  and these are the tags of the result.  If there is one, the tag stage removes from the
  title left by the date stage every hashtag and nothing else, and the title it produces
  holds no hashtag; if there is none, tags is absent and the stage changes nothing.
  \<open>parse("Buy groceries #shopping #food")\<close> has title \<open>Buy groceries\<close> and these two tags.
\<close>

theorem tag_extraction_exhaustive:
  "findall_tags text = hashtags_spec text \<and>
   tags (parse_natural_language now text) =
     (if hashtags_spec text = [] then None else Some (hashtags_spec text)) \<and>
   (hashtags_spec text \<noteq> [] \<longrightarrow>
      title (after_tags now text) = strip (sub_tags (title (after_dates now text))) \<and>
      toks (sub_tags (title (after_dates now text))) =
        (fst (toks (title (after_dates now text))),
         filter (\<lambda>xu. \<not> is_tag xu) (snd (toks (title (after_dates now text))))) \<and>
      hashtags_spec (title (after_tags now text)) = []) \<and>
   (hashtags_spec text = [] \<longrightarrow> after_tags now text = after_dates now text) \<and>
   parse_natural_language now ''Buy groceries #shopping #food'' =
     \<lparr>title = ''Buy groceries'', due_date = None, tags = Some [''shopping'', ''food''],
      priority = None\<rparr>"
proof -
  have a: "tags (parse_natural_language now text) =
     (if hashtags_spec text = [] then None else Some (hashtags_spec text))"
    by (simp add: tags_parse findall_tags_hashtags)
  have b: "hashtags_spec text \<noteq> [] \<Longrightarrow>
      title (after_tags now text) = strip (sub_tags (title (after_dates now text)))"
    by (simp add: after_tags_title findall_tags_hashtags)
  have c: "hashtags_spec (title (after_tags now text)) = []"
    using after_tags_tags[of now "text"] by (simp only: findall_tags_hashtags)
  have d: "hashtags_spec text = [] \<Longrightarrow> after_tags now text = after_dates now text"
    by (simp add: after_tags_def parse_tags_def findall_tags_hashtags)
  have e: "parse_natural_language now ''Buy groceries #shopping #food'' =
     \<lparr>title = ''Buy groceries'', due_date = None, tags = Some [''shopping'', ''food''],
      priority = None\<rparr>"
    by code_simp
  from a b c d e findall_tags_hashtags[of "text"] toks_sub_tags[of "title (after_dates now text)"]
  show ?thesis by blast
qed

theorem tag_extraction_exhaustive_witness:
  "hashtags_spec ''Buy #food, #Food, #food'' = [''food'', ''Food'', ''food''] \<and>
   hashtags_spec ''Buy #food, #Food, #food'' \<noteq> [] \<and>
   findall_tags ''Buy #food, #Food, #food'' = hashtags_spec ''Buy #food, #Food, #food'' \<and>
   title (after_tags ref_date ''Buy #food, #Food, #food'') =
     strip (sub_tags (title (after_dates ref_date ''Buy #food, #Food, #food''))) \<and>
   hashtags_spec (title (after_tags ref_date ''Buy #food, #Food, #food'')) = [] \<and>
   hashtags_spec ''Buy groceries # 5'' = [] \<and>
   after_tags ref_date ''Buy groceries # 5'' = after_dates ref_date ''Buy groceries # 5''"
proof -
  have h1: "hashtags_spec ''Buy #food, #Food, #food'' = [''food'', ''Food'', ''food'']"
    by code_simp
  then have h1': "hashtags_spec ''Buy #food, #Food, #food'' \<noteq> []" by simp
  have h2: "hashtags_spec ''Buy groceries # 5'' = []" by code_simp
  have c1: "findall_tags ''Buy #food, #Food, #food'' = hashtags_spec ''Buy #food, #Food, #food'' \<and>
     title (after_tags ref_date ''Buy #food, #Food, #food'') =
       strip (sub_tags (title (after_dates ref_date ''Buy #food, #Food, #food''))) \<and>
     hashtags_spec (title (after_tags ref_date ''Buy #food, #Food, #food'')) = []"
    using h1' tag_extraction_exhaustive[of "''Buy #food, #Food, #food''" ref_date] by blast
  have c2: "after_tags ref_date ''Buy groceries # 5'' = after_dates ref_date ''Buy groceries # 5''"
    using h2 tag_extraction_exhaustive[of "''Buy groceries # 5''" ref_date] by blast
  from h1 h1' h2 c1 c2 show ?thesis by blast
qed

text \<open>
  C9.  When the date of a matched rule cannot be computed, the rule is abandoned as if it
  had not matched and the loop goes on with the rules after it.  For the \<open>tomorrow\<close> rule
  this happens when the reference date is the last day of its month (the day of the month
  is incremented as it is): the whole call then behaves as the parser without the
  \<open>tomorrow\<close> rule, no due date is set, the date stage leaves the stripped input as the
  title, and the call returns; on 2024-03-31 \<open>parse("tomorrow")\<close> has title \<open>tomorrow\<close> and
  no due date.
\<close>

theorem tomorrow_failure_recovers:
  assumes "day now = days_in_month (year now) (month now)"
    and "re_search today_pattern text = None"
    and "re_search tomorrow_pattern text \<noteq> None"
  shows "(\<forall>pat f rest r e. re_search pat text \<noteq> None \<and> call0 now f = Inl e \<longrightarrow>
            parse_dates now text ((pat, f) # rest) r = parse_dates now text rest r) \<and>
         parse_dates now text date_patterns (initial_result text) =
           parse_dates now text [weekday_rule] (initial_result text) \<and>
         parse_natural_language now text = parse_with [today_rule, weekday_rule] now text \<and>
         due_date (parse_natural_language now text) = None \<and>
         title (parse_dates now text date_patterns (initial_result text)) = strip text \<and>
         parse_natural_language \<lparr>year = 2024, month = 3, day = 31\<rparr> ''tomorrow'' =
           \<lparr>title = ''tomorrow'', due_date = None, tags = None, priority = None\<rparr>"
proof -
  have g: "parse_dates now text ((pat, f) # rest) r = parse_dates now text rest r"
    if "re_search pat text \<noteq> None" "call0 now f = Inl e" for pat f rest r e
    using that by (cases f) auto
  have tf: "replace_day now (day now + 1) = Inl ValueError"
    using assms(1) by (rule tomorrow_fails)
  have a: "parse_dates now text date_patterns (initial_result text) =
           parse_dates now text [weekday_rule] (initial_result text)"
    using assms(2,3) tf
    by (auto simp: date_patterns_def today_rule_def tomorrow_rule_def)
  have b: "parse_dates now text [today_rule, weekday_rule] (initial_result text) =
           parse_dates now text [weekday_rule] (initial_result text)"
    using assms(2) by (simp add: today_rule_def)
  have c: "parse_dates now text [weekday_rule] (initial_result text) = initial_result text"
    by simp
  have d: "due_date (parse_priority text (parse_tags text r)) = due_date r" for r
    by simp
  have e: "parse_natural_language \<lparr>year = 2024, month = 3, day = 31\<rparr> ''tomorrow'' =
           \<lparr>title = ''tomorrow'', due_date = None, tags = None, priority = None\<rparr>"
    by code_simp
  have "parse_dates now text date_patterns (initial_result text) =
           parse_dates now text [weekday_rule] (initial_result text) \<and>
         parse_natural_language now text = parse_with [today_rule, weekday_rule] now text \<and>
         due_date (parse_natural_language now text) = None \<and>
         title (parse_dates now text date_patterns (initial_result text)) = strip text \<and>
         parse_natural_language \<lparr>year = 2024, month = 3, day = 31\<rparr> ''tomorrow'' =
           \<lparr>title = ''tomorrow'', due_date = None, tags = None, priority = None\<rparr>"
    unfolding parse_natural_language_def parse_with_def a b d
    using e by (simp add: parse_natural_language_def parse_with_def initial_result_def)
  with g show ?thesis by blast
qed

theorem tomorrow_failure_recovers_witness:
  "day \<lparr>year = 2024, month = 2, day = 29\<rparr> =
     days_in_month (year \<lparr>year = 2024, month = 2, day = 29\<rparr>)
       (month \<lparr>year = 2024, month = 2, day = 29\<rparr>) \<and>
   re_search today_pattern ''Pay Tomorrow #a'' = None \<and>
   re_search tomorrow_pattern ''Pay Tomorrow #a'' = Some ''Tomorrow'' \<and>
   call0 \<lparr>year = 2024, month = 2, day = 29\<rparr> (snd tomorrow_rule) = Inl ValueError \<and>
   parse_dates \<lparr>year = 2024, month = 2, day = 29\<rparr> ''Pay Tomorrow #a''
     ((fst tomorrow_rule, snd tomorrow_rule) # [weekday_rule])
     (initial_result ''Pay Tomorrow #a'') =
   parse_dates \<lparr>year = 2024, month = 2, day = 29\<rparr> ''Pay Tomorrow #a''
     [weekday_rule] (initial_result ''Pay Tomorrow #a'') \<and>
   parse_natural_language \<lparr>year = 2024, month = 2, day = 29\<rparr> ''Pay Tomorrow #a'' =
     parse_with [today_rule, weekday_rule] \<lparr>year = 2024, month = 2, day = 29\<rparr>
       ''Pay Tomorrow #a'' \<and>
   due_date (parse_natural_language \<lparr>year = 2024, month = 2, day = 29\<rparr> ''Pay Tomorrow #a'') =
     None"
proof -
  let ?now = "\<lparr>year = 2024, month = 2, day = 29\<rparr>"
  have h1: "day ?now = days_in_month (year ?now) (month ?now)" by code_simp
  have h2: "re_search today_pattern ''Pay Tomorrow #a'' = None" by code_simp
  have h3: "re_search tomorrow_pattern ''Pay Tomorrow #a'' = Some ''Tomorrow''"
    by code_simp
  have h3': "re_search tomorrow_pattern ''Pay Tomorrow #a'' \<noteq> None"
    using h3 by simp
  have h3'': "re_search (fst tomorrow_rule) ''Pay Tomorrow #a'' \<noteq> None"
    using h3' by (simp add: tomorrow_rule_def)
  have h4: "call0 ?now (snd tomorrow_rule) = Inl ValueError" by code_simp
  note t = tomorrow_failure_recovers[OF h1 h2 h3']
  from t have g: "\<forall>pat f rest r e.
      re_search pat ''Pay Tomorrow #a'' \<noteq> None \<and> call0 ?now f = Inl e \<longrightarrow>
      parse_dates ?now ''Pay Tomorrow #a'' ((pat, f) # rest) r =
      parse_dates ?now ''Pay Tomorrow #a'' rest r"
    by (rule conjunct1)
  have c1: "parse_dates ?now ''Pay Tomorrow #a''
       ((fst tomorrow_rule, snd tomorrow_rule) # [weekday_rule])
       (initial_result ''Pay Tomorrow #a'') =
     parse_dates ?now ''Pay Tomorrow #a'' [weekday_rule] (initial_result ''Pay Tomorrow #a'')"
    using g h3'' h4 by blast
  from t have c2: "parse_natural_language ?now ''Pay Tomorrow #a'' =
       parse_with [today_rule, weekday_rule] ?now ''Pay Tomorrow #a'' \<and>
     due_date (parse_natural_language ?now ''Pay Tomorrow #a'') = None"
    by blast
  from h1 h2 h3 h4 c1 c2 show ?thesis by blast
qed

text \<open>
  C10.  On an input made of whitespace only (the empty string included) the parser
  returns the empty title and no due date, no priority and no tags.
\<close>

theorem whitespace_only:
  assumes "\<forall>c\<in>set text. is_space c"
  shows "parse_natural_language now text =
           \<lparr>title = [], due_date = None, tags = None, priority = None\<rparr>"
proof -
  have nw: "\<forall>c\<in>set text. \<not> is_word c" using assms space_not_word by blast
  have d: "parse_dates now text date_patterns (initial_result text) = initial_result text"
    by (rule parse_dates_no_match) (simp add: re_search_def re_search_from_no_word[OF nw])
  have "CHR ''#'' \<notin> set text" using assms hash_not_space by blast
  then have t: "findall_tags text = []" by (rule findall_tags_no_hash)
  have "CHR ''!'' \<notin> set text" using assms bang_not_space by blast
  then have b: "\<not> contains ''!!'' text" using contains_set[of "''!!''" "text"] by auto
  then have b3: "\<not> contains ''!!!'' text" using contains_bang3_bang2 by blast
  show ?thesis
    unfolding parse_natural_language_def parse_with_def d
    by (simp add: parse_tags_def t parse_priority_def b b3 initial_result_def
        strip_all_space[OF assms])
qed

theorem whitespace_only_witness:
  "is_space (CHR '' '') \<and> is_space (CHR 0x09) \<and> is_space (CHR 0x0A) \<and>
   parse_natural_language ref_date [CHR '' '', CHR 0x09, CHR 0x0A, CHR '' ''] =
     \<lparr>title = [], due_date = None, tags = None, priority = None\<rparr>"
proof -
  have s: "is_space (CHR '' '') \<and> is_space (CHR 0x09) \<and> is_space (CHR 0x0A)"
    by (simp add: is_space_def code_def)
  then have h: "\<forall>c\<in>set [CHR '' '', CHR 0x09, CHR 0x0A, CHR '' '']. is_space c"
    by simp
  from s whitespace_only[OF h, of ref_date] show ?thesis by blast
qed

end
